theory Spec2Isabelle
  imports Main
begin

section \<open>Arrays, views and the store\<close>

text \<open>
  The label-matrix utilities of \<^verbatim>\<open>nucleus/object/__init__.py\<close> work on numpy arrays.
  An array object is a view: it names the buffer it reads and writes (\<open>base\<close>), its
  \<open>shape\<close> and its element type. Several array objects may share one buffer (a basic
  slice \<^verbatim>\<open>a[:n, :m]\<close> and an element \<^verbatim>\<open>a[i]\<close> along the first axis are views of
  \<^verbatim>\<open>a\<close>), so the buffers live in an explicit store. A buffer is addressed by
  multi-index. Every slice of the source starts at index 0, so it addresses its buffer
  with the indices of the array it was cut from; \<^verbatim>\<open>a[i]\<close> fixes the leading index
  \<open>i\<close>, kept in \<open>lead\<close>. The byte layout (strides, item size) is not modelled.
\<close>

datatype np_dtype = np_bool | np_int nat | np_uint nat | np_float nat

abbreviation numpy_int8 :: np_dtype where "numpy_int8 \<equiv> np_int 8"
abbreviation numpy_int16 :: np_dtype where "numpy_int16 \<equiv> np_int 16"
abbreviation numpy_int32 :: np_dtype where "numpy_int32 \<equiv> np_int 32"

text \<open>
  The exceptions of the source: a failed \<^verbatim>\<open>assert\<close> with its message if it has one, the
  \<^verbatim>\<open>ValueError\<close> and \<^verbatim>\<open>IndexError\<close> of numpy, and any exception raised inside matplotlib
  or scikit-image.
\<close>

datatype error = AssertionError "string option" | ValueError | IndexError | LibraryError string

record ndarray =
  base :: nat
  lead :: "nat list"
  shape :: "nat list"
  dtype :: np_dtype

record 'a store =
  cells :: "nat \<Rightarrow> nat list \<Rightarrow> 'a"
  fresh :: nat

definition ndim :: "ndarray \<Rightarrow> nat" where
  "ndim a = length (shape a)"

definition getitem :: "'a store \<Rightarrow> ndarray \<Rightarrow> nat list \<Rightarrow> 'a" where
  "getitem s a idx = cells s (base a) (lead a @ idx)"

text \<open>The multi-indices of an array of a given shape, in row-major order.\<close>

fun indices :: "nat list \<Rightarrow> nat list list" where
  "indices [] = [[]]"
| "indices (n # ns) = concat (map (\<lambda>i. map ((#) i) (indices ns)) [0..<n])"

definition in_bounds :: "nat list \<Rightarrow> nat list \<Rightarrow> bool" where
  "in_bounds shp idx = list_all2 (<) idx shp"

definition elements :: "'a store \<Rightarrow> ndarray \<Rightarrow> 'a list" where
  "elements s a = map (getitem s a) (indices (shape a))"

text \<open>An array object of the store: its buffer has been allocated.\<close>

definition allocated :: "'a store \<Rightarrow> ndarray \<Rightarrow> bool" where
  "allocated s a = (base a < fresh s)"

text \<open>\<^verbatim>\<open>a[idx] = v\<close> for one element.\<close>

definition setitem :: "'a store \<Rightarrow> ndarray \<Rightarrow> nat list \<Rightarrow> 'a \<Rightarrow> 'a store" where
  "setitem s a idx v =
     s\<lparr>cells := (cells s)(base a := (cells s (base a))(lead a @ idx := v))\<rparr>"

text \<open>A new array whose element at \<open>idx\<close> is \<open>f idx\<close>, in a buffer of its own.\<close>

definition new_array :: "'a store \<Rightarrow> nat list \<Rightarrow> np_dtype \<Rightarrow> (nat list \<Rightarrow> 'a) \<Rightarrow> ndarray \<times> 'a store" where
  "new_array s shp t f =
     (\<lparr>base = fresh s, lead = [], shape = shp, dtype = t\<rparr>,
      s\<lparr>cells := (cells s)(fresh s := f), fresh := Suc (fresh s)\<rparr>)"

section \<open>downsample_labels\<close>

text \<open>
  \<^verbatim>\<open>numpy.max(labels)\<close>: the largest element; a \<^verbatim>\<open>ValueError\<close> on an array with no
  element ("zero-size array to reduction operation maximum which has no identity").
\<close>

definition numpy_max :: "int store \<Rightarrow> ndarray \<Rightarrow> error + int" where
  "numpy_max s a =
     (case elements s a of [] \<Rightarrow> Inl ValueError | x # xs \<Rightarrow> Inr (fold max xs x))"

text \<open>
  The value an integer takes in a signed two's-complement type of \<open>w\<close> bits:
  numpy's integer-to-integer \<^verbatim>\<open>astype\<close> keeps the low \<open>w\<close> bits.
\<close>

definition wrap_signed :: "nat \<Rightarrow> int \<Rightarrow> int" where
  "wrap_signed w v = (v + 2 ^ (w - 1)) mod 2 ^ w - 2 ^ (w - 1)"

text \<open>\<^verbatim>\<open>labels.astype(numpy.intW)\<close>: always a new array, never a view.\<close>

definition astype :: "int store \<Rightarrow> ndarray \<Rightarrow> nat \<Rightarrow> ndarray \<times> int store" where
  "astype s a w = new_array s (shape a) (np_int w) (\<lambda>idx. wrap_signed w (getitem s a idx))"

definition downsample_labels :: "int store \<Rightarrow> ndarray \<Rightarrow> error + (ndarray \<times> int store)" where
  "downsample_labels s labels =
     (case numpy_max s labels of
        Inl e \<Rightarrow> Inl e
      | Inr labels_max \<Rightarrow>
          if labels_max < 128 then Inr (astype s labels 8)
          else if labels_max < 32768 then Inr (astype s labels 16)
          else Inr (astype s labels 32))"

section \<open>Python values the source computes with\<close>

text \<open>Sequencing of statements that may raise: the first exception ends the call.\<close>

definition and_then :: "error + 'a \<Rightarrow> ('a \<Rightarrow> error + 'b) \<Rightarrow> error + 'b" where
  "and_then r f = (case r of Inl e \<Rightarrow> Inl e | Inr x \<Rightarrow> f x)"

text \<open>\<^verbatim>\<open>t[i]\<close> on a tuple, for a non-negative \<open>i\<close>.\<close>

definition tuple_at :: "nat list \<Rightarrow> nat \<Rightarrow> error + nat" where
  "tuple_at t i = (if i < length t then Inr (t ! i) else Inl IndexError)"

text \<open>
  Basic slicing \<^verbatim>\<open>a[:n1, ..., :nk]\<close>, with \<open>None\<close> for a full slice \<^verbatim>\<open>:\<close>. The result is
  a view of the same buffer; a stop beyond the axis is clamped; more slices than axes
  are an \<^verbatim>\<open>IndexError\<close>.
\<close>

definition slice_axis :: "nat \<Rightarrow> nat option \<Rightarrow> nat" where
  "slice_axis d stop = (case stop of None \<Rightarrow> d | Some n \<Rightarrow> min n d)"

definition slice_prefix :: "ndarray \<Rightarrow> nat option list \<Rightarrow> error + ndarray" where
  "slice_prefix a stops =
     (if length stops > ndim a then Inl IndexError
      else Inr (a\<lparr>shape := map2 slice_axis (take (length stops) (shape a)) stops
                            @ drop (length stops) (shape a)\<rparr>))"

text \<open>Decimal digits of a natural number: \<^verbatim>\<open>"{:d}".format(n)\<close> and \<^verbatim>\<open>repr(n)\<close>.\<close>

definition digit_char :: "nat \<Rightarrow> char" where
  "digit_char d = ''0123456789'' ! d"

fun format_d :: "nat \<Rightarrow> string" where
  "format_d n = (if n < 10 then [digit_char n] else format_d (n div 10) @ [digit_char (n mod 10)])"

declare format_d.simps [simp del]

text \<open>\<^verbatim>\<open>repr\<close> of a tuple of integers: \<^verbatim>\<open>()\<close>, \<^verbatim>\<open>(3,)\<close>, \<^verbatim>\<open>(3, 4)\<close>.\<close>

fun join_comma :: "string list \<Rightarrow> string" where
  "join_comma [] = []"
| "join_comma [x] = x"
| "join_comma (x # y # ys) = x @ '', '' @ join_comma (y # ys)"

definition repr_tuple :: "nat list \<Rightarrow> string" where
  "repr_tuple t =
     (case t of
        [n] \<Rightarrow> ''('' @ format_d n @ '',)''
      | _ \<Rightarrow> ''('' @ join_comma (map format_d t) @ '')'')"

section \<open>check_consistency\<close>

text \<open>
  \<^verbatim>\<open>assert x is None or p(x), msg(x)\<close> and the same with two optional arguments.
  The message is only built when the assertion fails; a bare \<^verbatim>\<open>assert\<close> raises an
  \<^verbatim>\<open>AssertionError\<close> without message. Assertions are taken as enabled.
\<close>

definition assert_present :: "ndarray option \<Rightarrow> (ndarray \<Rightarrow> bool) \<Rightarrow> (ndarray \<Rightarrow> string option) \<Rightarrow> error + unit" where
  "assert_present x p msg =
     (case x of None \<Rightarrow> Inr ()
      | Some a \<Rightarrow> if p a then Inr () else Inl (AssertionError (msg a)))"

definition assert_present2 :: "ndarray option \<Rightarrow> ndarray option \<Rightarrow> (ndarray \<Rightarrow> ndarray \<Rightarrow> bool)
    \<Rightarrow> (ndarray \<Rightarrow> ndarray \<Rightarrow> string option) \<Rightarrow> error + unit" where
  "assert_present2 x y p msg =
     (case x of None \<Rightarrow> Inr ()
      | Some a \<Rightarrow>
          (case y of None \<Rightarrow> Inr ()
           | Some b \<Rightarrow> if p a b then Inr () else Inl (AssertionError (msg a b))))"

text \<open>\<^verbatim>\<open>numpy.all(a >= 0)\<close>\<close>

definition numpy_all_ge0 :: "int store \<Rightarrow> ndarray \<Rightarrow> bool" where
  "numpy_all_ge0 s a = list_all (\<lambda>v. 0 \<le> v) (elements s a)"

definition check_consistency :: "int store \<Rightarrow> ndarray option \<Rightarrow> ndarray option \<Rightarrow> ndarray option \<Rightarrow> error + unit" where
  "check_consistency s segmented unedited_segmented small_removed_segmented =
     and_then (assert_present segmented (numpy_all_ge0 s) (\<lambda>_. None)) (\<lambda>_.
     and_then (assert_present unedited_segmented (numpy_all_ge0 s) (\<lambda>_. None)) (\<lambda>_.
     and_then (assert_present small_removed_segmented (numpy_all_ge0 s) (\<lambda>_. None)) (\<lambda>_.
     and_then (assert_present segmented (\<lambda>a. ndim a = 2)
       (\<lambda>a. Some (''Segmented label matrix must have two dimensions, has '' @ format_d (ndim a)))) (\<lambda>_.
     and_then (assert_present unedited_segmented (\<lambda>a. ndim a = 2)
       (\<lambda>a. Some (''Unedited segmented label matrix must have two dimensions, has ''
                     @ format_d (ndim a)))) (\<lambda>_.
     and_then (assert_present small_removed_segmented (\<lambda>a. ndim a = 2)
       (\<lambda>a. Some (''Small removed segmented label matrix must have two dimensions, has ''
                     @ format_d (ndim a)))) (\<lambda>_.
     and_then (assert_present2 segmented unedited_segmented (\<lambda>a b. shape a = shape b)
       (\<lambda>a b. Some (''Segmented '' @ repr_tuple (shape a) @ '' and unedited segmented ''
                       @ repr_tuple (shape b) @ '' shapes differ''))) (\<lambda>_.
     assert_present2 segmented small_removed_segmented (\<lambda>a b. shape a = shape b)
       (\<lambda>a b. Some (''Segmented '' @ repr_tuple (shape a) @ '' and small removed segmented ''
                       @ repr_tuple (shape b) @ '' shapes differ'')))))))))"

section \<open>crop_labels_and_image\<close>

text \<open>
  Both results are views of the arguments: nothing is read or written. The parameter
  \<^verbatim>\<open>image\<close> is written \<open>img\<close>.
\<close>

definition crop_labels_and_image :: "ndarray \<Rightarrow> ndarray \<Rightarrow> error + (ndarray \<times> ndarray)" where
  "crop_labels_and_image labels img =
     and_then (tuple_at (shape labels) 0) (\<lambda>l0.
     and_then (tuple_at (shape img) 0) (\<lambda>i0.
     let min_dim1 = min l0 i0 in
     and_then (tuple_at (shape labels) 1) (\<lambda>l1.
     and_then (tuple_at (shape img) 1) (\<lambda>i1.
     let min_dim2 = min l1 i1 in
     if ndim labels = 3 then
       and_then (tuple_at (shape labels) 2) (\<lambda>l2.
       and_then (tuple_at (shape img) 2) (\<lambda>i2.
       let min_dim3 = min l2 i2 in
       if ndim img = 4 then
         and_then (slice_prefix labels [Some min_dim1, Some min_dim2, Some min_dim3]) (\<lambda>l.
         and_then (slice_prefix img [Some min_dim1, Some min_dim2, Some min_dim3, None]) (\<lambda>i.
         Inr (l, i)))
       else
         and_then (slice_prefix labels [Some min_dim1, Some min_dim2, Some min_dim3]) (\<lambda>l.
         and_then (slice_prefix img [Some min_dim1, Some min_dim2, Some min_dim3]) (\<lambda>i.
         Inr (l, i)))))
     else if ndim img = 3 then
       and_then (slice_prefix labels [Some min_dim1, Some min_dim2]) (\<lambda>l.
       and_then (slice_prefix img [Some min_dim1, Some min_dim2, None]) (\<lambda>i.
       Inr (l, i)))
     else
       and_then (slice_prefix labels [Some min_dim1, Some min_dim2]) (\<lambda>l.
       and_then (slice_prefix img [Some min_dim1, Some min_dim2]) (\<lambda>i.
       Inr (l, i)))))))"

section \<open>size_similarly\<close>

text \<open>
  \<^verbatim>\<open>numpy.ones(shape, dtype)\<close> and \<^verbatim>\<open>numpy.zeros(shape, dtype)\<close> allocate. The elements of
  a Boolean mask are stored as 1 (\<^verbatim>\<open>True\<close>) and 0 (\<^verbatim>\<open>False\<close>).
\<close>

definition numpy_ones :: "'a::zero_neq_one store \<Rightarrow> nat list \<Rightarrow> np_dtype \<Rightarrow> ndarray \<times> 'a store" where
  "numpy_ones s shp t = new_array s shp t (\<lambda>_. 1)"

definition numpy_zeros :: "'a::zero_neq_one store \<Rightarrow> nat list \<Rightarrow> np_dtype \<Rightarrow> ndarray \<times> 'a store" where
  "numpy_zeros s shp t = new_array s shp t (\<lambda>_. 0)"

text \<open>The cells of its buffer that a view covers.\<close>

definition within :: "ndarray \<Rightarrow> nat list \<Rightarrow> bool" where
  "within a full =
     (take (length (lead a)) full = lead a \<and> in_bounds (shape a) (drop (length (lead a)) full))"

text \<open>
  \<^verbatim>\<open>dst[...] = src\<close> for two array views: \<open>src\<close> is broadcast to the shape of \<open>dst\<close>
  (aligned at the last axis; an axis of length 1 is repeated; leading axes of length 1
  that \<open>dst\<close> does not have are dropped), a \<^verbatim>\<open>ValueError\<close> if it cannot be. The values are
  read before any is written.
\<close>

definition broadcastable :: "nat list \<Rightarrow> nat list \<Rightarrow> bool" where
  "broadcastable src dst =
     (list_all (\<lambda>d. d = 1) (take (length src - length dst) src) \<and>
      list_all2 (\<lambda>a b. a = b \<or> a = 1)
        (drop (length src - length dst) src) (drop (length dst - length src) dst))"

definition broadcast_index :: "nat list \<Rightarrow> nat list \<Rightarrow> nat list" where
  "broadcast_index src idx =
     replicate (length src - length idx) 0 @
     map2 (\<lambda>d i. if d = 1 then 0 else i)
       (drop (length src - length idx) src) (drop (length idx - length src) idx)"

definition setitem_array :: "'a store \<Rightarrow> ndarray \<Rightarrow> ndarray \<Rightarrow> error + 'a store" where
  "setitem_array s dst src =
     (if broadcastable (shape src) (shape dst) then
        Inr (s\<lparr>cells := (cells s)(base dst := (\<lambda>full.
               if within dst full
               then getitem s src (broadcast_index (shape src) (drop (length (lead dst)) full))
               else cells s (base dst) full))\<rparr>)
      else Inl ValueError)"

text \<open>\<^verbatim>\<open>dst[...] = v\<close> for a scalar.\<close>

definition setitem_scalar :: "'a store \<Rightarrow> ndarray \<Rightarrow> 'a \<Rightarrow> 'a store" where
  "setitem_scalar s dst v =
     s\<lparr>cells := (cells s)(base dst := (\<lambda>full.
         if within dst full then v else cells s (base dst) full))\<rparr>"

definition size_similarly :: "'a::zero_neq_one store \<Rightarrow> ndarray \<Rightarrow> ndarray
    \<Rightarrow> error + ((ndarray \<times> ndarray) \<times> 'a store)" where
  "size_similarly s labels secondary =
     (if take 2 (shape labels) = take 2 (shape secondary) then
        (let (mask, s1) = numpy_ones s (shape secondary) np_bool
         in Inr ((secondary, mask), s1))
      else
        and_then (tuple_at (shape labels) 0) (\<lambda>l0.
        and_then (tuple_at (shape secondary) 0) (\<lambda>s0.
        and_then (if l0 \<le> s0 then
                    and_then (tuple_at (shape labels) 1) (\<lambda>l1.
                    and_then (tuple_at (shape secondary) 1) (\<lambda>s1.
                    Inr (l1 \<le> s1)))
                  else Inr False) (\<lambda>covers.
        if covers then
          (if ndim secondary = 2 then
             and_then (tuple_at (shape labels) 0) (\<lambda>h.
             and_then (tuple_at (shape labels) 1) (\<lambda>w.
             and_then (slice_prefix secondary [Some h, Some w]) (\<lambda>r.
             let (mask, s1) = numpy_ones s (shape labels) np_bool
             in Inr ((r, mask), s1))))
           else
             and_then (tuple_at (shape labels) 0) (\<lambda>h.
             and_then (tuple_at (shape labels) 1) (\<lambda>w.
             and_then (slice_prefix secondary [Some h, Some w, None]) (\<lambda>r.
             let (mask, s1) = numpy_ones s (shape labels) np_bool
             in Inr ((r, mask), s1)))))
        else
          (let (result, s1) = numpy_zeros s (shape labels @ drop 2 (shape secondary)) (dtype secondary) in
           and_then (tuple_at (shape secondary) 0) (\<lambda>s0.
           and_then (tuple_at (shape labels) 0) (\<lambda>l0.
           let i_max = min s0 l0 in
           and_then (tuple_at (shape secondary) 1) (\<lambda>s1'.
           and_then (tuple_at (shape labels) 1) (\<lambda>l1.
           let j_max = min s1' l1 in
           and_then
             (if ndim secondary = 2 then
                and_then (slice_prefix secondary [Some i_max, Some j_max]) (\<lambda>src.
                and_then (slice_prefix result [Some i_max, Some j_max]) (\<lambda>dst.
                setitem_array s1 dst src))
              else
                and_then (slice_prefix secondary [Some i_max, Some j_max, None]) (\<lambda>src.
                and_then (slice_prefix result [Some i_max, Some j_max, None]) (\<lambda>dst.
                setitem_array s1 dst src))) (\<lambda>s2.
           let (mask, s3) = numpy_zeros s2 (shape labels) np_bool in
           and_then (slice_prefix mask [Some i_max, Some j_max]) (\<lambda>m.
           Inr ((result, mask), setitem_scalar s3 m 1))))))))))))"

section \<open>Concrete stores and arrays\<close>

text \<open>A store made of the given buffers, and the buffer of a nested list of rows.\<close>

definition matrix_cells :: "'a::zero list list \<Rightarrow> nat list \<Rightarrow> 'a" where
  "matrix_cells rows idx =
     (case idx of
        [i, j] \<Rightarrow> if i < length rows \<and> j < length (rows ! i) then rows ! i ! j else 0
      | _ \<Rightarrow> 0)"

definition store_of :: "(nat list \<Rightarrow> 'a::zero) list \<Rightarrow> 'a store" where
  "store_of bufs = \<lparr>cells = (\<lambda>b. if b < length bufs then bufs ! b else (\<lambda>_. 0)), fresh = length bufs\<rparr>"

definition labels_2x2 :: ndarray where
  "labels_2x2 = \<lparr>base = 0, lead = [], shape = [2, 2], dtype = np_int 64\<rparr>"

definition store_max :: "int \<Rightarrow> int store" where
  "store_max m = store_of [matrix_cells [[0, 1], [m, 2]]]"

definition labels_2x3 :: ndarray where
  "labels_2x3 = \<lparr>base = 0, lead = [], shape = [2, 3], dtype = np_int 32\<rparr>"

definition image_1x5x3 :: ndarray where
  "image_1x5x3 = \<lparr>base = 1, lead = [], shape = [1, 5, 3], dtype = np_float 64\<rparr>"

definition store_two :: "int store" where
  "store_two = store_of [matrix_cells [[1, 2], [3, 4]],
                         matrix_cells [[5, 6, 7], [8, 9, 10], [11, 12, 13]]]"

definition secondary_3x3 :: ndarray where
  "secondary_3x3 = \<lparr>base = 1, lead = [], shape = [3, 3], dtype = np_int 32\<rparr>"

definition secondary_1x3 :: ndarray where
  "secondary_1x3 = \<lparr>base = 1, lead = [], shape = [1, 3], dtype = np_int 32\<rparr>"

definition secondary_2x2x3 :: ndarray where
  "secondary_2x2x3 = \<lparr>base = 1, lead = [], shape = [2, 2, 3], dtype = np_int 32\<rparr>"

section \<open>The failures of check_consistency, named\<close>

text \<open>
  The three arguments of \<^verbatim>\<open>check_consistency\<close>, the messages its assertions build, and
  the violations of the specification: a present matrix with a negative value, a
  present matrix that does not have exactly two axes, and two present matrices, any two
  of the three, whose shapes differ.
\<close>

datatype component = Segmented | Unedited | SmallRemoved

definition present :: "component \<Rightarrow> 'a \<Rightarrow> 'a \<Rightarrow> 'a \<Rightarrow> 'a" where
  "present c segmented unedited_segmented small_removed_segmented =
     (case c of Segmented \<Rightarrow> segmented | Unedited \<Rightarrow> unedited_segmented
      | SmallRemoved \<Rightarrow> small_removed_segmented)"

definition ndim_message :: "component \<Rightarrow> nat \<Rightarrow> string" where
  "ndim_message c n =
     (case c of Segmented \<Rightarrow> ''Segmented'' | Unedited \<Rightarrow> ''Unedited segmented''
      | SmallRemoved \<Rightarrow> ''Small removed segmented'')
     @ '' label matrix must have two dimensions, has '' @ format_d n"

definition lower_name :: "component \<Rightarrow> string" where
  "lower_name c =
     (case c of Segmented \<Rightarrow> ''segmented'' | Unedited \<Rightarrow> ''unedited segmented''
      | SmallRemoved \<Rightarrow> ''small removed segmented'')"

definition shapes_message :: "component \<Rightarrow> nat list \<Rightarrow> nat list \<Rightarrow> string" where
  "shapes_message c a b =
     ''Segmented '' @ repr_tuple a @ '' and '' @ lower_name c @ '' '' @ repr_tuple b
     @ '' shapes differ''"

definition has_negative :: "int store \<Rightarrow> ndarray option \<Rightarrow> bool" where
  "has_negative s x = (case x of None \<Rightarrow> False | Some a \<Rightarrow> \<not> numpy_all_ge0 s a)"

definition not_2d :: "ndarray option \<Rightarrow> bool" where
  "not_2d x = (case x of None \<Rightarrow> False | Some a \<Rightarrow> ndim a \<noteq> 2)"

definition shapes_differ :: "ndarray option \<Rightarrow> ndarray option \<Rightarrow> bool" where
  "shapes_differ x y =
     (case x of None \<Rightarrow> False
      | Some a \<Rightarrow> (case y of None \<Rightarrow> False | Some b \<Rightarrow> shape a \<noteq> shape b))"

definition violation :: "int store \<Rightarrow> ndarray option \<Rightarrow> ndarray option \<Rightarrow> ndarray option \<Rightarrow> bool" where
  "violation s segmented unedited_segmented small_removed_segmented =
     (has_negative s segmented \<or> has_negative s unedited_segmented
      \<or> has_negative s small_removed_segmented
      \<or> not_2d segmented \<or> not_2d unedited_segmented \<or> not_2d small_removed_segmented
      \<or> shapes_differ segmented unedited_segmented
      \<or> shapes_differ segmented small_removed_segmented
      \<or> shapes_differ unedited_segmented small_removed_segmented)"

text \<open>
  The arguments whose only violation is a shape that differs between
  \<^verbatim>\<open>unedited_segmented\<close> and \<^verbatim>\<open>small_removed_segmented\<close> while \<^verbatim>\<open>segmented\<close> is absent:
  the pair that no assertion of the source compares.
\<close>

definition unchecked_pair_only :: "int store \<Rightarrow> ndarray option \<Rightarrow> ndarray option \<Rightarrow> ndarray option \<Rightarrow> bool" where
  "unchecked_pair_only s segmented unedited_segmented small_removed_segmented =
     (segmented = None
      \<and> shapes_differ unedited_segmented small_removed_segmented
      \<and> \<not> has_negative s unedited_segmented \<and> \<not> has_negative s small_removed_segmented
      \<and> \<not> not_2d unedited_segmented \<and> \<not> not_2d small_removed_segmented)"

definition is_digit :: "char \<Rightarrow> bool" where
  "is_digit c = (c \<in> set ''0123456789'')"

definition closed_join :: "nat list \<Rightarrow> string" where
  "closed_join t = join_comma (map format_d t) @ '')''"

section \<open>overlay_labels\<close>

text \<open>
  \<^verbatim>\<open>overlay_labels\<close> and \<^verbatim>\<open>_colors\<close> (written \<open>py_colors\<close>) call matplotlib, scikit-image
  and numpy's global random number generator. What they call is a parameter of the
  model: the colour map of the preferences as a mappable, \<^verbatim>\<open>to_rgba\<close> of
  \<^verbatim>\<open>numpy.arange(n)\<close> cut to three channels (a list of colours), \<^verbatim>\<open>numpy.random.seed\<close>
  and \<^verbatim>\<open>numpy.random.shuffle\<close> on the generator state, \<^verbatim>\<open>skimage.color.label2rgb\<close>, and
  the operations on arrays of floats (\<^verbatim>\<open>numpy.zeros\<close>, iteration over the first axis,
  assignment to \<^verbatim>\<open>overlay[index]\<close>). \<^verbatim>\<open>label2rgb\<close> is given the store of the integer
  arrays and returns it, so the model does not decide whether it writes to its label
  argument. Arrays of floats are values of a type \<open>'f\<close>, a colour is a value of \<open>'c\<close>,
  the opacity a value of \<open>'x\<close>, the generator state a value of \<open>'g\<close>.
\<close>

record ('g, 'm, 'c, 'f, 'x) library =
  default_mappable :: "error + 'm"
  to_rgba :: "'m \<Rightarrow> int \<Rightarrow> error + 'c list"
  random_seed :: "int \<Rightarrow> error + 'g"
  random_shuffle :: "'g \<Rightarrow> 'c list \<Rightarrow> 'c list \<times> 'g"
  label2rgb :: "int store \<Rightarrow> ndarray \<Rightarrow> 'x \<Rightarrow> 'c list \<Rightarrow> 'f \<Rightarrow> (error + 'f) \<times> int store"
  numpy_zeros_float :: "nat list \<Rightarrow> 'f"
  planes :: "'f \<Rightarrow> error + 'f list"
  set_plane :: "'f \<Rightarrow> nat \<Rightarrow> 'f \<Rightarrow> error + 'f"

text \<open>\<^verbatim>\<open>a[i]\<close> for a non-negative \<open>i\<close>: a view of the \<open>i\<close>-th element along the first axis.\<close>

definition index_first :: "ndarray \<Rightarrow> nat \<Rightarrow> error + ndarray" where
  "index_first a i =
     (case shape a of
        [] \<Rightarrow> Inl IndexError
      | n # ns \<Rightarrow> if i < n then Inr (a\<lparr>lead := lead a @ [i], shape := ns\<rparr>) else Inl IndexError)"

text \<open>\<^verbatim>\<open>numpy.unique(a)\<close>: the distinct elements in increasing order, in a new array.\<close>

definition numpy_unique :: "int store \<Rightarrow> ndarray \<Rightarrow> int list" where
  "numpy_unique s a = sort (remdups (elements s a))"

text \<open>
  \<^verbatim>\<open>unique_labels - 1\<close>: numpy subtracts in the element type of the labels, and an
  integer type wraps around (in \<^verbatim>\<open>int8\<close>, \<open>-128 - 1\<close> is 127).
\<close>

definition sub1_in_dtype :: "np_dtype \<Rightarrow> int \<Rightarrow> int" where
  "sub1_in_dtype t v =
     (case t of
        np_int w \<Rightarrow> wrap_signed w (v - 1)
      | np_uint w \<Rightarrow> (v - 1) mod 2 ^ w
      | np_bool \<Rightarrow> v - 1
      | np_float w \<Rightarrow> v - 1)"

text \<open>
  \<^verbatim>\<open>colors[indexes]\<close> with an array of integers: the rows at these indexes, a negative
  index counting from the end, an \<^verbatim>\<open>IndexError\<close> for an index out of range.
\<close>

fun take_rows :: "'c list \<Rightarrow> int list \<Rightarrow> error + 'c list" where
  "take_rows colors [] = Inr []"
| "take_rows colors (i # rest) =
     (let n = int (length colors) in
      if - n \<le> i \<and> i < n then
        (case take_rows colors rest of
           Inl e \<Rightarrow> Inl e
         | Inr rows \<Rightarrow> Inr (colors ! nat (if i < 0 then i + n else i) # rows))
      else Inl IndexError)"

definition py_colors :: "('g, 'm, 'c, 'f, 'x) library \<Rightarrow> 'g \<Rightarrow> int store \<Rightarrow> ndarray
    \<Rightarrow> int option \<Rightarrow> int option \<Rightarrow> (error + 'c list) \<times> 'g" where
  "py_colors lib g s labels max_label seed =
     (case default_mappable lib of
        Inl e \<Rightarrow> (Inl e, g)
      | Inr mappable \<Rightarrow>
          (case (case max_label of None \<Rightarrow> numpy_max s labels | Some m \<Rightarrow> Inr m) of
             Inl e \<Rightarrow> (Inl e, g)
           | Inr n \<Rightarrow>
               (case to_rgba lib mappable n of
                  Inl e \<Rightarrow> (Inl e, g)
                | Inr colors \<Rightarrow>
                    (case seed of
                       None \<Rightarrow>
                         (let (shuffled, g') = random_shuffle lib g colors in (Inr shuffled, g'))
                     | Some sd \<Rightarrow>
                         (case random_seed lib sd of
                            Inl e \<Rightarrow> (Inl e, g)
                          | Inr g1 \<Rightarrow>
                              (let (shuffled, g') = random_shuffle lib g1 colors
                               in (Inr shuffled, g')))))))"

text \<open>
  The loop \<^verbatim>\<open>for index, plane in enumerate(pixel_data)\<close>, from \<open>index\<close> on, with the
  planes still to come. \<^verbatim>\<open>labels[index]\<close> is evaluated twice in the source, to the same
  view.
\<close>

fun overlay_planes :: "('g, 'm, 'c, 'f, 'x) library \<Rightarrow> int store \<Rightarrow> ndarray \<Rightarrow> 'x \<Rightarrow> 'c list
    \<Rightarrow> 'f list \<Rightarrow> nat \<Rightarrow> 'f \<Rightarrow> (error + 'f) \<times> int store" where
  "overlay_planes lib s labels opacity colors [] index overlay = (Inr overlay, s)"
| "overlay_planes lib s labels opacity colors (plane # rest) index overlay =
     (case index_first labels index of
        Inl e \<Rightarrow> (Inl e, s)
      | Inr labels_index \<Rightarrow>
          (case numpy_unique s labels_index of
             [] \<Rightarrow> (Inl IndexError, s)
           | u0 # us \<Rightarrow>
               (let unique_labels = (if u0 = 0 then us else u0 # us) in
                case take_rows colors (map (sub1_in_dtype (dtype labels)) unique_labels) of
                  Inl e \<Rightarrow> (Inl e, s)
                | Inr rows \<Rightarrow>
                    (case label2rgb lib s labels_index opacity rows plane of
                       (Inl e, s1) \<Rightarrow> (Inl e, s1)
                     | (Inr rgb, s1) \<Rightarrow>
                         (case set_plane lib overlay index rgb of
                            Inl e \<Rightarrow> (Inl e, s1)
                          | Inr overlay' \<Rightarrow>
                              overlay_planes lib s1 labels opacity colors rest (Suc index)
                                overlay')))))"

definition overlay_labels :: "('g, 'm, 'c, 'f, 'x) library \<Rightarrow> 'g \<Rightarrow> int store \<Rightarrow> 'f \<Rightarrow> ndarray
    \<Rightarrow> 'x \<Rightarrow> int option \<Rightarrow> int option \<Rightarrow> (error + 'f) \<times> int store \<times> 'g" where
  "overlay_labels lib g s pixel_data labels opacity max_label seed =
     (case py_colors lib g s labels max_label seed of
        (Inl e, g1) \<Rightarrow> (Inl e, s, g1)
      | (Inr colors, g1) \<Rightarrow>
          if ndim labels = 3 then
            (let overlay = numpy_zeros_float lib (shape labels @ [3]) in
             case planes lib pixel_data of
               Inl e \<Rightarrow> (Inl e, s, g1)
             | Inr ps \<Rightarrow>
                 (let (r, s1) = overlay_planes lib s labels opacity colors ps 0 overlay
                  in (r, s1, g1)))
          else
            (let (r, s1) = label2rgb lib s labels opacity colors pixel_data in (r, s1, g1)))"

text \<open>
  The contract of \<^verbatim>\<open>skimage.color.label2rgb\<close> that \<^verbatim>\<open>overlay_labels\<close> relies on: it
  leaves the arrays that exist when it is called as they are.
\<close>

definition keeps_store :: "('g, 'm, 'c, 'f, 'x) library \<Rightarrow> bool" where
  "keeps_store lib =
     (\<forall>s a opacity colors img.
        fresh s \<le> fresh (snd (label2rgb lib s a opacity colors img)) \<and>
        (\<forall>b. b < fresh s \<longrightarrow> cells (snd (label2rgb lib s a opacity colors img)) b = cells s b))"

text \<open>
  A library to run the model on: the generator state is a number, a shuffle rotates
  the colours by it, and \<^verbatim>\<open>label2rgb\<close> returns the opacity, the labels and the colours it
  was given.
\<close>

definition toy_library :: "(nat, unit, int, int list, int) library" where
  "toy_library =
     \<lparr>default_mappable = Inr (),
      to_rgba = (\<lambda>_ n. Inr (map (\<lambda>k. 10 * k) [0..n - 1])),
      random_seed = (\<lambda>sd. if 0 \<le> sd then Inr (nat sd) else Inl ValueError),
      random_shuffle = (\<lambda>g colors. (rotate g colors, Suc g)),
      label2rgb = (\<lambda>s a opacity colors img. (Inr (opacity # elements s a @ colors), s)),
      numpy_zeros_float = (\<lambda>shp. []),
      planes = (\<lambda>f. Inr (map (\<lambda>v. [v]) f)),
      set_plane = (\<lambda>overlay index v. Inr (overlay @ v))\<rparr>"

section \<open>Facts about indices and elements\<close>

lemma set_indices: "set (indices shp) = {idx. list_all2 (<) idx shp}"
proof (induction shp)
  case Nil
  then show ?case by auto
next
  case (Cons n ns)
  show ?case
  proof (rule set_eqI)
    fix idx
    show "idx \<in> set (indices (n # ns)) \<longleftrightarrow> idx \<in> {idx. list_all2 (<) idx (n # ns)}"
      using Cons.IH by (cases idx) (auto simp: list_all2_Cons2)
  qed
qed

lemma in_bounds_indices: "in_bounds shp idx \<longleftrightarrow> idx \<in> set (indices shp)"
  by (simp add: in_bounds_def set_indices)

lemma length_indices: "length (indices shp) = prod_list shp"
proof (induction shp)
  case Nil
  then show ?case by simp
next
  case (Cons n ns)
  have "length (concat (map (\<lambda>i. map ((#) i) (indices ns)) [0..<n])) = n * length (indices ns)"
    by (induction n) (simp_all add: length_concat)
  then show ?case using Cons.IH by simp
qed

lemma elements_empty: "elements s a = [] \<longleftrightarrow> prod_list (shape a) = 0"
  using length_indices [of "shape a"] by (auto simp: elements_def)

lemma set_elements: "set (elements s a) = {getitem s a idx | idx. in_bounds (shape a) idx}"
  by (auto simp: elements_def in_bounds_indices)

lemma fold_max_Max: "fold max xs (x::int) = Max (set (x # xs))"
  by (simp only: Max.set_eq_fold)

lemma numpy_max_Inr:
  "numpy_max s a = Inr m \<longleftrightarrow> elements s a \<noteq> [] \<and> m = Max (set (elements s a))"
  by (cases "elements s a") (auto simp: numpy_max_def fold_max_Max simp del: set_simps)

lemma numpy_max_Inl:
  "numpy_max s a = Inl e \<longleftrightarrow> elements s a = [] \<and> e = ValueError"
  by (cases "elements s a") (auto simp: numpy_max_def)

lemma getitem_new_array:
  "new_array s shp t f = (r, s') \<Longrightarrow> getitem s' r idx = f idx"
  by (auto simp: new_array_def getitem_def)

lemma new_array_old:
  "new_array s shp t f = (r, s') \<Longrightarrow> allocated s a \<Longrightarrow> getitem s' a idx = getitem s a idx"
  by (auto simp: new_array_def getitem_def allocated_def)

lemma new_array_shape:
  "new_array s shp t f = (r, s') \<Longrightarrow> shape r = shp \<and> dtype r = t \<and> base r = fresh s"
  by (auto simp: new_array_def)

section \<open>downsample_labels: the selected width\<close>

lemma wrap_signed_id: "- (2 ^ (w - 1)) \<le> v \<Longrightarrow> v < 2 ^ (w - 1) \<Longrightarrow> 0 < w \<Longrightarrow> wrap_signed w v = v"
proof -
  assume a: "- (2 ^ (w - 1)) \<le> v" "v < 2 ^ (w - 1)" "0 < w"
  then obtain k where w: "w = Suc k" by (cases w) auto
  have "0 \<le> v + 2 ^ k" "v + 2 ^ k < 2 ^ Suc k" using a w by auto
  then have "(v + 2 ^ k) mod 2 ^ Suc k = v + 2 ^ k" by (simp only: mod_pos_pos_trivial)
  then show ?thesis by (simp add: wrap_signed_def w)
qed

lemma downsample_labels_cases:
  assumes "elements s labels \<noteq> []" and "m = Max (set (elements s labels))"
  shows "downsample_labels s labels =
    Inr (astype s labels (if m < 128 then 8 else if m < 32768 then 16 else 32))"
proof -
  have "numpy_max s labels = Inr m" using assms by (simp add: numpy_max_Inr)
  then show ?thesis by (simp add: downsample_labels_def)
qed

lemma elements_store_max: "elements (store_max m) labels_2x2 = [0, 1, m, 2]"
  by (simp add: elements_def labels_2x2_def store_max_def store_of_def getitem_def matrix_cells_def upt_rec)


lemma max_store_max: "2 \<le> m \<Longrightarrow> Max (set (elements (store_max m) labels_2x2)) = m"
  by (simp add: elements_store_max)

text \<open>
  Claim C1. For a label matrix whose largest identifier is \<open>m\<close>, \<^verbatim>\<open>downsample_labels\<close>
  returns the matrix cast to 8 bits when \<open>m < 128\<close>, to 16 bits when
  \<open>128 \<le> m < 32768\<close> and to 32 bits otherwise: the result has the shape of the
  argument, the selected signed type, and each element is the argument's element cast
  to that type. The boundaries 127, 128, 32767 and 32768 are instances.
\<close>

theorem downsample_labels_width:
  assumes "elements s labels \<noteq> []" and "m = Max (set (elements s labels))"
  shows "\<exists>out s'. downsample_labels s labels = Inr (out, s')
           \<and> shape out = shape labels
           \<and> dtype out = (if m < 128 then numpy_int8
                           else if m < 32768 then numpy_int16 else numpy_int32)
           \<and> (\<forall>idx. getitem s' out idx =
                 wrap_signed (if m < 128 then 8 else if m < 32768 then 16 else 32)
                   (getitem s labels idx))"
proof -
  let ?w = "if m < 128 then 8 else if m < 32768 then 16 else (32::nat)"
  obtain out s' where a: "astype s labels ?w = (out, s')" by (cases "astype s labels ?w")
  have d: "downsample_labels s labels = Inr (out, s')"
    using downsample_labels_cases [OF assms] a by simp
  have n: "new_array s (shape labels) (np_int ?w) (\<lambda>idx. wrap_signed ?w (getitem s labels idx)) = (out, s')"
    using a by (simp add: astype_def)
  have "shape out = shape labels" "dtype out = np_int ?w"
    using new_array_shape [OF n] by simp_all
  moreover have "\<forall>idx. getitem s' out idx = wrap_signed ?w (getitem s labels idx)"
    using getitem_new_array [OF n] by simp
  ultimately show ?thesis using d by (intro exI [of _ out] exI [of _ s']) auto
qed

theorem downsample_labels_width_witness:
  "elements (store_max 127) labels_2x2 \<noteq> []
   \<and> 127 = Max (set (elements (store_max 127) labels_2x2))
   \<and> (\<exists>out s'. downsample_labels (store_max 127) labels_2x2 = Inr (out, s') \<and> dtype out = numpy_int8)
   \<and> (\<exists>out s'. downsample_labels (store_max 128) labels_2x2 = Inr (out, s') \<and> dtype out = numpy_int16)
   \<and> (\<exists>out s'. downsample_labels (store_max 32767) labels_2x2 = Inr (out, s') \<and> dtype out = numpy_int16)
   \<and> (\<exists>out s'. downsample_labels (store_max 32768) labels_2x2 = Inr (out, s') \<and> dtype out = numpy_int32)"
proof -
  have e: "elements (store_max m) labels_2x2 \<noteq> []" for m
    by (simp add: elements_store_max)
  have w: "2 \<le> m \<Longrightarrow> \<exists>out s'. downsample_labels (store_max m) labels_2x2 = Inr (out, s')
      \<and> dtype out = (if m < 128 then numpy_int8 else if m < 32768 then numpy_int16 else numpy_int32)" for m
    using downsample_labels_width [OF e, of m m] max_store_max [of m] by auto
  show ?thesis
    using e [of 127] max_store_max [of 127] w [of 127] w [of 128] w [of 32767] w [of 32768]
    by simp
qed

text \<open>
  Claim C7. For a label matrix without negative entries, \<^verbatim>\<open>downsample_labels\<close> returns an
  array of the same shape in a signed type of \<open>w\<close> bits, and when the largest
  identifier fits that type (\<open>m < 2 ^ (w - 1)\<close>) every entry of the result equals the
  entry of the argument at the same index: identifiers are not renumbered.
\<close>

theorem downsample_labels_preserves:
  assumes "elements s labels \<noteq> []"
    and "m = Max (set (elements s labels))"
    and "\<forall>v \<in> set (elements s labels). 0 \<le> v"
  shows "\<exists>out s' w. downsample_labels s labels = Inr (out, s')
           \<and> dtype out = np_int w
           \<and> shape out = shape labels
           \<and> (m < 2 ^ (w - 1) \<longrightarrow>
                (\<forall>idx. in_bounds (shape labels) idx \<longrightarrow> getitem s' out idx = getitem s labels idx))"
proof -
  let ?w = "if m < 128 then 8 else if m < 32768 then 16 else (32::nat)"
  obtain out s' where a: "astype s labels ?w = (out, s')" by (cases "astype s labels ?w")
  have d: "downsample_labels s labels = Inr (out, s')"
    using downsample_labels_cases [OF assms(1,2)] a by simp
  have n: "new_array s (shape labels) (np_int ?w) (\<lambda>idx. wrap_signed ?w (getitem s labels idx)) = (out, s')"
    using a by (simp add: astype_def)
  have sh: "shape out = shape labels" "dtype out = np_int ?w"
    using new_array_shape [OF n] by simp_all
  have "getitem s' out idx = getitem s labels idx"
    if fit: "m < 2 ^ (?w - 1)" and ib: "in_bounds (shape labels) idx" for idx
  proof -
    have mem: "getitem s labels idx \<in> set (elements s labels)"
      using ib by (auto simp: set_elements)
    then have lo: "0 \<le> getitem s labels idx" using assms(3) by blast
    have "getitem s labels idx \<le> m"
      using mem assms(2) by simp
    then have hi: "getitem s labels idx < 2 ^ (?w - 1)" using fit by linarith
    have "- (2 ^ (?w - 1)) \<le> (0::int)" by simp
    then have "wrap_signed ?w (getitem s labels idx) = getitem s labels idx"
      using lo hi by (intro wrap_signed_id) (linarith, assumption, simp)
    then show ?thesis using getitem_new_array [OF n] by simp
  qed
  then show ?thesis using d sh by (intro exI [of _ out] exI [of _ s'] exI [of _ ?w]) blast
qed

theorem downsample_labels_preserves_witness:
  "elements (store_max 300) labels_2x2 \<noteq> []
   \<and> 300 = Max (set (elements (store_max 300) labels_2x2))
   \<and> list_all (\<lambda>v. 0 \<le> v) (elements (store_max 300) labels_2x2)
   \<and> (\<exists>out s'. downsample_labels (store_max 300) labels_2x2 = Inr (out, s')
         \<and> dtype out = numpy_int16
         \<and> getitem s' out [1, 0] = 300)"
proof -
  have e: "elements (store_max 300) labels_2x2 \<noteq> []"
    by (simp add: elements_store_max)
  have m: "300 = Max (set (elements (store_max 300) labels_2x2))"
    by (simp add: elements_store_max)
  have p: "\<forall>v \<in> set (elements (store_max 300) labels_2x2). 0 \<le> v"
    by (simp add: elements_store_max)
  have c: "downsample_labels (store_max 300) labels_2x2 = Inr (astype (store_max 300) labels_2x2 16)"
    using downsample_labels_cases [OF e m] by simp
  have g: "getitem (store_max 300) labels_2x2 [1, 0] = 300"
    by (simp add: getitem_def store_max_def store_of_def labels_2x2_def matrix_cells_def)
  have ib: "in_bounds (shape labels_2x2) [1, 0]"
    by (simp add: in_bounds_def labels_2x2_def)
  obtain out s' w where r: "downsample_labels (store_max 300) labels_2x2 = Inr (out, s')"
      "dtype out = np_int w"
      "(300::int) < 2 ^ (w - 1) \<longrightarrow> (\<forall>idx. in_bounds (shape labels_2x2) idx \<longrightarrow>
          getitem s' out idx = getitem (store_max 300) labels_2x2 idx)"
    using downsample_labels_preserves [OF e m p] by blast
  have "w = 16" using r(1,2) c by (auto simp: astype_def new_array_def)
  then have "getitem s' out [1, 0] = 300" using r(3) ib g by simp
  then show ?thesis using e m p r(1,2) \<open>w = 16\<close> by (auto simp: list_all_iff)
qed

text \<open>
  Claim C9. \<^verbatim>\<open>downsample_labels\<close> raises (the \<^verbatim>\<open>ValueError\<close> of \<^verbatim>\<open>numpy.max\<close>) on a label
  matrix with no element, and returns an array on every label matrix with at least one
  element.
\<close>

theorem downsample_labels_partial:
  "(prod_list (shape labels) = 0 \<longrightarrow> downsample_labels s labels = Inl ValueError)
   \<and> (prod_list (shape labels) \<noteq> 0 \<longrightarrow> (\<exists>out s'. downsample_labels s labels = Inr (out, s')))"
proof (intro conjI impI)
  assume "prod_list (shape labels) = 0"
  then have "elements s labels = []" by (simp only: elements_empty)
  then show "downsample_labels s labels = Inl ValueError"
    by (simp add: downsample_labels_def numpy_max_def)
next
  assume "prod_list (shape labels) \<noteq> 0"
  then have "elements s labels \<noteq> []" by (simp add: elements_empty)
  from downsample_labels_cases [OF this refl]
  show "\<exists>out s'. downsample_labels s labels = Inr (out, s')"
    by (metis surj_pair)
qed

theorem downsample_labels_partial_witness:
  "prod_list (shape (labels_2x2\<lparr>shape := [0, 2]\<rparr>)) = 0
   \<and> downsample_labels (store_max 5) (labels_2x2\<lparr>shape := [0, 2]\<rparr>) = Inl ValueError
   \<and> prod_list (shape labels_2x2) \<noteq> 0
   \<and> (\<exists>out s'. downsample_labels (store_max 5) labels_2x2 = Inr (out, s'))"
  using downsample_labels_partial [of "labels_2x2\<lparr>shape := [0, 2]\<rparr>" "store_max 5"]
    downsample_labels_partial [of labels_2x2 "store_max 5"]
  by (simp add: labels_2x2_def)

section \<open>crop_labels_and_image: the common extent\<close>

lemma and_then_Inr [simp]: "and_then (Inr x) f = f x"
  by (simp add: and_then_def)

lemma and_then_Inl [simp]: "and_then (Inl e) f = Inl e"
  by (simp add: and_then_def)

lemma tuple_at_simps [simp]:
  "tuple_at (x # xs) 0 = Inr x"
  "tuple_at (x # xs) (Suc i) = tuple_at xs i"
  "tuple_at (x # y # z # xs) 2 = Inr z"
  "tuple_at [] i = Inl IndexError"
  by (simp_all add: tuple_at_def)

lemma slice_prefix_2:
  "shape a = h # w # rest \<Longrightarrow>
   slice_prefix a [Some n, Some m] = Inr (a\<lparr>shape := min n h # min m w # rest\<rparr>)"
  by (simp add: slice_prefix_def ndim_def slice_axis_def)

lemma slice_prefix_2_None:
  "shape a = h # w # c # rest \<Longrightarrow>
   slice_prefix a [Some n, Some m, None] = Inr (a\<lparr>shape := min n h # min m w # c # rest\<rparr>)"
  by (simp add: slice_prefix_def ndim_def slice_axis_def)

lemma slice_prefix_3:
  "shape a = h # w # d # rest \<Longrightarrow>
   slice_prefix a [Some n, Some m, Some k] = Inr (a\<lparr>shape := min n h # min m w # min k d # rest\<rparr>)"
  by (simp add: slice_prefix_def ndim_def slice_axis_def)

lemma slice_prefix_3_None:
  "shape a = h # w # d # c # rest \<Longrightarrow>
   slice_prefix a [Some n, Some m, Some k, None]
     = Inr (a\<lparr>shape := min n h # min m w # min k d # c # rest\<rparr>)"
  by (simp add: slice_prefix_def ndim_def slice_axis_def)

lemma crop_2d:
  assumes "shape labels = [l0, l1]" and "shape img = i0 # i1 # ch" and "length ch \<le> 1"
  shows "crop_labels_and_image labels img =
    Inr (labels\<lparr>shape := [min l0 i0, min l1 i1]\<rparr>, img\<lparr>shape := min l0 i0 # min l1 i1 # ch\<rparr>)"
proof (cases ch)
  case Nil
  then show ?thesis using assms
    by (simp add: crop_labels_and_image_def ndim_def slice_prefix_2 min.absorb1 Let_def)
next
  case (Cons c cs)
  then have "cs = []" using assms(3) by simp
  then show ?thesis using assms Cons
    by (simp add: crop_labels_and_image_def ndim_def slice_prefix_2 slice_prefix_2_None Let_def)
qed

lemma crop_3d:
  assumes "shape labels = [l0, l1, l2]" and "shape img = i0 # i1 # i2 # ch" and "length ch \<le> 1"
  shows "crop_labels_and_image labels img =
    Inr (labels\<lparr>shape := [min l0 i0, min l1 i1, min l2 i2]\<rparr>,
         img\<lparr>shape := min l0 i0 # min l1 i1 # min l2 i2 # ch\<rparr>)"
proof (cases ch)
  case Nil
  then show ?thesis using assms
    by (simp add: crop_labels_and_image_def ndim_def slice_prefix_3 Let_def)
next
  case (Cons c cs)
  then have "cs = []" using assms(3) by simp
  then show ?thesis using assms Cons
    by (simp add: crop_labels_and_image_def ndim_def slice_prefix_3 slice_prefix_3_None Let_def)
qed

text \<open>
  Claim C5. For labels with two or three axes and an image with the same number of
  spatial axes, optionally followed by one channel axis, \<^verbatim>\<open>crop_labels_and_image\<close>
  returns views of both whose spatial shape is the elementwise minimum of the two
  spatial shapes; the image keeps its channel axis whole; both results start at index
  0, so an index reads the same element in a result as in its argument.
\<close>

theorem crop_labels_and_image_common:
  assumes "ndim labels = 2 \<or> ndim labels = 3"
    and "shape img = spatial @ channels"
    and "length spatial = ndim labels"
    and "length channels \<le> 1"
  shows "\<exists>l i. crop_labels_and_image labels img = Inr (l, i)
           \<and> shape l = map2 min (shape labels) spatial
           \<and> shape i = map2 min (shape labels) spatial @ channels
           \<and> (\<forall>s idx. getitem s l idx = getitem s labels idx)
           \<and> (\<forall>s idx. getitem s i idx = getitem s img idx)"
  using assms(1)
proof
  assume n: "ndim labels = 2"
  then obtain l0 l1 where l: "shape labels = [l0, l1]"
    by (auto simp: ndim_def length_Suc_conv numeral_2_eq_2)
  obtain i0 i1 where sp: "spatial = [i0, i1]"
    using assms(3) n by (auto simp: length_Suc_conv numeral_2_eq_2)
  have i: "shape img = i0 # i1 # channels" using assms(2) sp by simp
  show ?thesis
    unfolding crop_2d [OF l i assms(4)] using l sp by (simp add: getitem_def)
next
  assume n: "ndim labels = 3"
  then obtain l0 l1 l2 where l: "shape labels = [l0, l1, l2]"
    by (auto simp: ndim_def length_Suc_conv numeral_3_eq_3)
  obtain i0 i1 i2 where sp: "spatial = [i0, i1, i2]"
    using assms(3) n by (auto simp: length_Suc_conv numeral_3_eq_3)
  have i: "shape img = i0 # i1 # i2 # channels" using assms(2) sp by simp
  show ?thesis
    unfolding crop_3d [OF l i assms(4)] using l sp by (simp add: getitem_def)
qed

theorem crop_labels_and_image_common_witness:
  "ndim labels_2x3 = 2
   \<and> shape image_1x5x3 = [1, 5] @ [3]
   \<and> length [1, 5 :: nat] = ndim labels_2x3
   \<and> length [3 :: nat] \<le> 1
   \<and> (\<exists>l i. crop_labels_and_image labels_2x3 image_1x5x3 = Inr (l, i)
         \<and> shape l = [1, 3] \<and> shape i = [1, 3, 3])"
proof -
  have a: "ndim labels_2x3 = 2 \<or> ndim labels_2x3 = 3"
    and b: "shape image_1x5x3 = [1, 5] @ [3]"
    and c: "length [1, 5 :: nat] = ndim labels_2x3"
    and d: "length [3 :: nat] \<le> 1"
    by (simp_all add: labels_2x3_def image_1x5x3_def ndim_def)
  obtain l i where r: "crop_labels_and_image labels_2x3 image_1x5x3 = Inr (l, i)"
    "shape l = map2 min (shape labels_2x3) [1, 5]"
    "shape i = map2 min (shape labels_2x3) [1, 5] @ [3]"
    using crop_labels_and_image_common [OF a b c d] by blast
  have "shape l = [1, 3]" "shape i = [1, 3, 3]"
    using r(2,3) by (simp_all add: labels_2x3_def)
  then show ?thesis using r(1) b c d by (simp add: labels_2x3_def ndim_def)
qed

section \<open>size_similarly: the three cases\<close>

lemma broadcast_index_same: "in_bounds shp idx \<Longrightarrow> broadcast_index shp idx = idx"
proof -
  assume "in_bounds shp idx"
  then have a: "list_all2 (<) idx shp" by (simp add: in_bounds_def)
  then have l: "length idx = length shp" by (rule list_all2_lengthD)
  from a have "map2 (\<lambda>d i. if d = 1 then 0 else i) shp idx = idx"
    by (induction idx shp rule: list_all2_induct) auto
  then show ?thesis using l by (simp add: broadcast_index_def)
qed

lemma broadcastable_same: "broadcastable shp shp"
  by (simp add: broadcastable_def list_all2_same)

lemma size_similarly_same:
  assumes "take 2 (shape labels) = take 2 (shape secondary)"
  shows "size_similarly s labels secondary =
    Inr ((secondary, fst (numpy_ones s (shape secondary) np_bool)),
         snd (numpy_ones s (shape secondary) np_bool))"
  using assms by (simp add: size_similarly_def split_beta)

lemma size_similarly_cover:
  assumes "shape labels = [H, W]" and "shape secondary = h # w # rest"
    and "(H, W) \<noteq> (h, w)" and "H \<le> h" and "W \<le> w"
  shows "size_similarly s labels secondary =
    Inr ((secondary\<lparr>shape := H # W # rest\<rparr>, fst (numpy_ones s [H, W] np_bool)),
         snd (numpy_ones s [H, W] np_bool))"
proof (cases rest)
  case Nil
  then show ?thesis using assms
    by (auto simp: size_similarly_def split_beta ndim_def slice_prefix_2 min.absorb1)
next
  case (Cons c cs)
  then show ?thesis using assms
    by (auto simp: size_similarly_def split_beta ndim_def slice_prefix_2_None min.absorb1)
qed

lemma size_similarly_pad:
  assumes "shape labels = [H, W]" and "shape secondary = h # w # rest"
    and "\<not> (H \<le> h \<and> W \<le> w)"
  shows "\<exists>s'. size_similarly s labels secondary =
    Inr ((\<lparr>base = fresh s, lead = [], shape = H # W # rest, dtype = dtype secondary\<rparr>,
          \<lparr>base = Suc (fresh s), lead = [], shape = [H, W], dtype = np_bool\<rparr>), s')
    \<and> fresh s' = Suc (Suc (fresh s))
    \<and> (\<forall>b. b < fresh s \<longrightarrow> cells s' b = cells s b)
    \<and> (\<forall>idx. cells s' (fresh s) idx =
          (if in_bounds (min h H # min w W # rest) idx \<and> base secondary \<noteq> fresh s
           then getitem s secondary idx else 0))
    \<and> (\<forall>idx. cells s' (Suc (fresh s)) idx = (if in_bounds [min h H, min w W] idx then 1 else 0))"
proof -
  have ne: "[H, W] \<noteq> [h, w]" using assms(3) by auto
  show ?thesis
  proof (cases rest)
    case Nil
    then show ?thesis using assms ne
      by (auto simp: size_similarly_def split_beta ndim_def slice_prefix_2 Let_def
          numpy_zeros_def new_array_def setitem_array_def broadcastable_same setitem_scalar_def
          within_def
          getitem_def broadcast_index_same min.commute)
  next
    case (Cons c cs)
    then show ?thesis using assms ne
      by (auto simp: size_similarly_def split_beta ndim_def slice_prefix_2 slice_prefix_2_None Let_def
          numpy_zeros_def new_array_def setitem_array_def broadcastable_same setitem_scalar_def
          within_def
          getitem_def broadcast_index_same min.commute)
  qed
qed


lemma in_bounds_Cons2:
  "in_bounds (a # b # rest) idx \<longleftrightarrow>
     (\<exists>i j ks. idx = i # j # ks \<and> i < a \<and> j < b \<and> in_bounds rest ks)"
  by (auto simp: in_bounds_def list_all2_Cons2)

lemma in_bounds_overlap:
  assumes "in_bounds (H # W # rest) idx"
  shows "in_bounds (min h H # min w W # rest) idx \<longleftrightarrow> idx ! 0 < h \<and> idx ! 1 < w"
  using assms by (auto simp: in_bounds_Cons2)

lemma in_bounds_overlap2:
  assumes "in_bounds [H, W] idx"
  shows "in_bounds [min h H, min w W] idx \<longleftrightarrow> idx ! 0 < h \<and> idx ! 1 < w"
  using assms by (auto simp: in_bounds_Cons2)

lemma size_similarly_crop:
  assumes "shape labels = [H, W]" and "shape secondary = h # w # rest"
    and "H \<le> h" and "W \<le> w" and "rest = [] \<or> (H, W) \<noteq> (h, w)"
    and "allocated s secondary"
  shows "\<exists>r m s'. size_similarly s labels secondary = Inr ((r, m), s')
           \<and> shape r = H # W # rest
           \<and> (\<forall>idx. getitem s' r idx = getitem s secondary idx)
           \<and> shape m = shape labels
           \<and> (\<forall>idx. getitem s' m idx = 1)"
proof (cases "(H, W) = (h, w)")
  case True
  then have r: "rest = []" using assms(5) by blast
  have t: "take 2 (shape labels) = take 2 (shape secondary)"
    using assms(1,2) True by simp
  have sh: "shape secondary = shape labels" using assms(1,2) True r by simp
  show ?thesis
    unfolding size_similarly_same [OF t] using assms(1,2,6) True r
    by (simp add: numpy_ones_def new_array_def getitem_def allocated_def)
next
  case False
  show ?thesis
    unfolding size_similarly_cover [OF assms(1,2) False assms(3,4)] using assms(1,6)
    by (simp add: numpy_ones_def new_array_def getitem_def allocated_def)
qed

lemma size_similarly_padded:
  assumes "shape labels = [H, W]" and "shape secondary = h # w # rest"
    and "\<not> (H \<le> h \<and> W \<le> w)" and "allocated s secondary"
  shows "\<exists>r m s'. size_similarly s labels secondary = Inr ((r, m), s')
           \<and> shape r = shape labels @ rest
           \<and> (\<forall>idx. in_bounds (shape r) idx \<longrightarrow> getitem s' r idx =
                 (if idx ! 0 < h \<and> idx ! 1 < w then getitem s secondary idx else 0))
           \<and> shape m = shape labels
           \<and> (\<forall>idx. in_bounds (shape m) idx \<longrightarrow> getitem s' m idx =
                 (if idx ! 0 < h \<and> idx ! 1 < w then 1 else 0))"
proof -
  have ne: "base secondary \<noteq> fresh s" using assms(4) by (simp add: allocated_def)
  obtain s' where p: "size_similarly s labels secondary =
      Inr ((\<lparr>base = fresh s, lead = [], shape = H # W # rest, dtype = dtype secondary\<rparr>,
            \<lparr>base = Suc (fresh s), lead = [], shape = [H, W], dtype = np_bool\<rparr>), s')"
    and c1: "\<And>idx. cells s' (fresh s) idx =
          (if in_bounds (min h H # min w W # rest) idx \<and> base secondary \<noteq> fresh s
           then getitem s secondary idx else 0)"
    and c2: "\<And>idx. cells s' (Suc (fresh s)) idx = (if in_bounds [min h H, min w W] idx then 1 else 0)"
    using size_similarly_pad [OF assms(1-3), of s] by blast
  show ?thesis
    unfolding p using assms(1) ne
    by (simp add: getitem_def c1 c2 in_bounds_overlap in_bounds_overlap2)
qed

text \<open>
  Claim C3, at labels of shape (2, 2) and a secondary array of shape (2, 2, 3): the
  first two axes agree, so the first branch returns the secondary array itself with
  \<^verbatim>\<open>numpy.ones(secondary.shape, bool)\<close>: a mask of shape (2, 2, 3), not of the shape
  (2, 2) of the labels. The branch for a larger secondary array builds its mask from
  \<^verbatim>\<open>labels.shape\<close>. Outside this case the claim holds: \<open>size_similarly_crop\<close> and
  \<open>size_similarly_padded\<close>.
\<close>

theorem size_similarly_same_extent_mask:
  "\<exists>m s'. size_similarly store_two labels_2x2 secondary_2x2x3 = Inr ((secondary_2x2x3, m), s')
     \<and> shape labels_2x2 = [2, 2]
     \<and> shape m = [2, 2, 3]"
proof -
  have "take 2 (shape labels_2x2) = take 2 (shape secondary_2x2x3)"
    by (simp add: labels_2x2_def secondary_2x2x3_def)
  from size_similarly_same [OF this, of store_two] show ?thesis
    by (simp add: numpy_ones_def new_array_def labels_2x2_def secondary_2x2x3_def)
qed

text \<open>
  Claim C4, the case where the secondary array covers the labels and is larger: at
  labels of shape (2, 2) and a secondary array of shape (3, 3) the returned array is
  the slice \<^verbatim>\<open>secondary[:2, :2]\<close>, a view, and writing 99 to its element (0, 0) changes
  element (0, 0) of the secondary array from 5 to 99.
\<close>

theorem size_similarly_cover_is_view:
  "\<exists>r m s'. size_similarly store_two labels_2x2 secondary_3x3 = Inr ((r, m), s')
     \<and> in_bounds (shape r) [0, 0]
     \<and> getitem store_two secondary_3x3 [0, 0] = 5
     \<and> getitem (setitem s' r [0, 0] 99) secondary_3x3 [0, 0] = 99"
proof -
  have l: "shape labels_2x2 = [2, 2]" by (simp add: labels_2x2_def)
  have s3: "shape secondary_3x3 = [3, 3]" by (simp add: secondary_3x3_def)
  have g: "getitem store_two secondary_3x3 [0, 0] = 5"
    by (simp add: getitem_def store_two_def store_of_def secondary_3x3_def matrix_cells_def)
  have "size_similarly store_two labels_2x2 secondary_3x3 =
    Inr ((secondary_3x3\<lparr>shape := [2, 2]\<rparr>, fst (numpy_ones store_two [2, 2] np_bool)),
         snd (numpy_ones store_two [2, 2] np_bool))"
    by (rule size_similarly_cover [OF l s3]) simp_all
  then show ?thesis using g
    by (simp add: in_bounds_def getitem_def setitem_def numpy_ones_def new_array_def)
qed

text \<open>
  Claim C4 as amended, for a two-dimensional labels matrix and a secondary array with
  at least two axes. When the secondary array is smaller in some spatial axis, the
  returned array is a new array: after the call, writing to any element of it leaves
  every element of the secondary array as it was before the call. When the secondary
  array covers the labels and is larger in some spatial axis, the returned array is a
  view of the secondary array and the mask is all ones: writing to an element of the
  returned array writes that element of the secondary array (the docstring: "Either
  the mask is all ones or the result is a copy").
\<close>

theorem size_similarly_aliasing:
  assumes "shape labels = [H, W]" and "shape secondary = h # w # rest"
    and "allocated s secondary"
  shows "(\<not> (H \<le> h \<and> W \<le> w) \<longrightarrow>
            (\<exists>r m s'. size_similarly s labels secondary = Inr ((r, m), s')
               \<and> (\<forall>idx v idx'. getitem (setitem s' r idx v) secondary idx' = getitem s secondary idx')))
       \<and> (H \<le> h \<and> W \<le> w \<and> (H, W) \<noteq> (h, w) \<longrightarrow>
            (\<exists>r m s'. size_similarly s labels secondary = Inr ((r, m), s')
               \<and> base r = base secondary
               \<and> (\<forall>idx. getitem s' m idx = 1)
               \<and> (\<forall>idx v. in_bounds (shape r) idx \<longrightarrow>
                     getitem (setitem s' r idx v) secondary idx = v)))"
proof (intro conjI impI)
  assume c: "\<not> (H \<le> h \<and> W \<le> w)"
  have ne: "base secondary < fresh s" using assms(3) by (simp add: allocated_def)
  obtain s' where p: "size_similarly s labels secondary =
      Inr ((\<lparr>base = fresh s, lead = [], shape = H # W # rest, dtype = dtype secondary\<rparr>,
            \<lparr>base = Suc (fresh s), lead = [], shape = [H, W], dtype = np_bool\<rparr>), s')"
    and old: "\<forall>b. b < fresh s \<longrightarrow> cells s' b = cells s b"
    using size_similarly_pad [OF assms(1,2) c, of s] by blast
  show "\<exists>r m s'. size_similarly s labels secondary = Inr ((r, m), s')
      \<and> (\<forall>idx v idx'. getitem (setitem s' r idx v) secondary idx' = getitem s secondary idx')"
    unfolding p using ne old by (simp add: getitem_def setitem_def)
next
  assume b: "H \<le> h \<and> W \<le> w \<and> (H, W) \<noteq> (h, w)"
  then have 1: "(H, W) \<noteq> (h, w)" and 2: "H \<le> h" and 3: "W \<le> w" by blast+
  show "\<exists>r m s'. size_similarly s labels secondary = Inr ((r, m), s')
      \<and> base r = base secondary \<and> (\<forall>idx. getitem s' m idx = 1)
      \<and> (\<forall>idx v. in_bounds (shape r) idx \<longrightarrow>
            getitem (setitem s' r idx v) secondary idx = v)"
    unfolding size_similarly_cover [OF assms(1,2) 1 2 3]
    by (simp add: numpy_ones_def new_array_def getitem_def setitem_def)
qed

theorem size_similarly_aliasing_witness:
  "shape labels_2x2 = [2, 2] \<and> shape secondary_1x3 = [1, 3] \<and> shape secondary_3x3 = [3, 3]
   \<and> allocated store_two secondary_1x3 \<and> allocated store_two secondary_3x3
   \<and> \<not> ((2::nat) \<le> 1 \<and> (2::nat) \<le> 3)
   \<and> (\<exists>r m s'. size_similarly store_two labels_2x2 secondary_1x3 = Inr ((r, m), s')
         \<and> getitem (setitem s' r [0, 0] 99) secondary_1x3 [0, 0] = 5)
   \<and> (2::nat) \<le> 3 \<and> ((2::nat), (2::nat)) \<noteq> (3, 3)
   \<and> (\<exists>r m s'. size_similarly store_two labels_2x2 secondary_3x3 = Inr ((r, m), s')
         \<and> base r = base secondary_3x3 \<and> getitem s' m [1, 1] = 1)"
proof -
  have l: "shape labels_2x2 = [2, 2]" by (simp add: labels_2x2_def)
  have s1: "shape secondary_1x3 = [1, 3]" by (simp add: secondary_1x3_def)
  have s3: "shape secondary_3x3 = [3, 3]" by (simp add: secondary_3x3_def)
  have a1: "allocated store_two secondary_1x3"
    by (simp add: allocated_def store_two_def store_of_def secondary_1x3_def)
  have a3: "allocated store_two secondary_3x3"
    by (simp add: allocated_def store_two_def store_of_def secondary_3x3_def)
  have g: "getitem store_two secondary_1x3 [0, 0] = 5"
    by (simp add: getitem_def store_two_def store_of_def secondary_1x3_def matrix_cells_def)
  have c: "\<exists>r m s'. size_similarly store_two labels_2x2 secondary_1x3 = Inr ((r, m), s')
         \<and> getitem (setitem s' r [0, 0] 99) secondary_1x3 [0, 0] = 5"
    using size_similarly_aliasing [OF l s1 a1] g by fastforce
  have b: "\<exists>r m s'. size_similarly store_two labels_2x2 secondary_3x3 = Inr ((r, m), s')
         \<and> base r = base secondary_3x3 \<and> getitem s' m [1, 1] = 1"
    using size_similarly_aliasing [OF l s3 a3] by fastforce
  show ?thesis using l s1 s3 a1 a3 c b by simp
qed

section \<open>check_consistency: messages and failures\<close>

lemma digit_char_is_digit: "d < 10 \<Longrightarrow> is_digit (digit_char d)"
  unfolding is_digit_def digit_char_def by (rule nth_mem) simp

lemma digit_char_inj: "a < 10 \<Longrightarrow> b < 10 \<Longrightarrow> digit_char a = digit_char b \<Longrightarrow> a = b"
proof -
  assume a: "a < 10" "b < 10" "digit_char a = digit_char b"
  have d: "distinct ''0123456789''" by simp
  have "a < length ''0123456789''" "b < length ''0123456789''" using a by simp_all
  then show ?thesis using a(3) nth_eq_iff_index_eq [OF d] unfolding digit_char_def by blast
qed

lemma format_d_digits: "\<forall>c \<in> set (format_d n). is_digit c"
proof (induction n rule: format_d.induct)
  case (1 n)
  show ?case
  proof (cases "n < 10")
    case True
    then show ?thesis by (simp add: format_d.simps [of n] digit_char_is_digit)
  next
    case False
    then show ?thesis using 1 by (simp add: format_d.simps [of n] digit_char_is_digit)
  qed
qed

lemma format_d_nonempty: "format_d n \<noteq> []"
  by (simp add: format_d.simps [of n])

lemma format_d_inj: "format_d a = format_d b \<Longrightarrow> a = b"
proof (induction a arbitrary: b rule: format_d.induct)
  case (1 n)
  show ?case
  proof (cases "n < 10")
    case True
    note n = this
    show ?thesis
    proof (cases "b < 10")
      case True
      then show ?thesis using n "1.prems" digit_char_inj [of n b]
        by (simp add: format_d.simps [of n] format_d.simps [of b])
    next
      case False
      then show ?thesis using n "1.prems" format_d_nonempty [of "b div 10"]
        by (simp add: format_d.simps [of n] format_d.simps [of b])
    qed
  next
    case False
    note n = this
    show ?thesis
    proof (cases "b < 10")
      case True
      then show ?thesis using n "1.prems" format_d_nonempty [of "n div 10"]
        by (simp add: format_d.simps [of n] format_d.simps [of b])
    next
      case False
      then have "format_d (n div 10) = format_d (b div 10)" "digit_char (n mod 10) = digit_char (b mod 10)"
        using n "1.prems" by (simp_all add: format_d.simps [of n] format_d.simps [of b])
      then have "n div 10 = b div 10" "n mod 10 = b mod 10"
        using "1.IH" [OF n] digit_char_inj [of "n mod 10" "b mod 10"] by simp_all
      then show ?thesis by (metis div_mult_mod_eq)
    qed
  qed
qed

lemma digits_append_eq:
  assumes "\<forall>c \<in> set xs. is_digit c" and "\<forall>c \<in> set ys. is_digit c"
    and "r \<noteq> [] \<and> \<not> is_digit (hd r)" and "r' \<noteq> [] \<and> \<not> is_digit (hd r')"
    and "xs @ r = ys @ r'"
  shows "xs = ys \<and> r = r'"
  using assms
proof (induction xs arbitrary: ys)
  case Nil
  then show ?case by (cases ys) auto
next
  case (Cons x xs)
  show ?case
  proof (cases ys)
    case Nil
    then show ?thesis using Cons.prems by auto
  next
    case (Cons y ys')
    then show ?thesis using Cons.prems Cons.IH [of ys'] by auto
  qed
qed

lemma format_d_append_eq:
  assumes "r \<noteq> [] \<and> \<not> is_digit (hd r)" and "r' \<noteq> [] \<and> \<not> is_digit (hd r')"
    and "format_d a @ r = format_d b @ r'"
  shows "a = b \<and> r = r'"
  using digits_append_eq [OF format_d_digits format_d_digits assms] format_d_inj by blast

lemma closed_join_simps:
  "closed_join [n] = format_d n @ '')''"
  "closed_join (n # m # ms) = format_d n @ '', '' @ closed_join (m # ms)"
  by (simp_all add: closed_join_def)

lemma closed_join_inj:
  "closed_join (n # ns) @ r = closed_join (m # ms) @ r' \<Longrightarrow> n # ns = m # ms \<and> r = r'"
proof (induction ns arbitrary: n m ms)
  case Nil
  show ?case
  proof (cases ms)
    case Nil
    have "format_d n @ ('')'' @ r) = format_d m @ ('')'' @ r')"
      using Nil.prems Nil by (simp add: closed_join_simps)
    then have "n = m \<and> '')'' @ r = '')'' @ r'"
      by (intro format_d_append_eq) (simp_all add: is_digit_def)
    then show ?thesis using Nil by simp
  next
    case (Cons k ks)
    have "format_d n @ ('')'' @ r) = format_d m @ ('', '' @ closed_join (k # ks) @ r')"
      using Nil.prems Cons by (simp add: closed_join_simps)
    then have "n = m \<and> '')'' @ r = '', '' @ closed_join (k # ks) @ r'"
      by (intro format_d_append_eq) (simp_all add: is_digit_def)
    then show ?thesis by simp
  qed
next
  case (Cons a as)
  show ?case
  proof (cases ms)
    case Nil
    have "format_d n @ ('', '' @ closed_join (a # as) @ r) = format_d m @ ('')'' @ r')"
      using Cons.prems Nil by (simp add: closed_join_simps)
    then have "n = m \<and> '', '' @ closed_join (a # as) @ r = '')'' @ r'"
      by (intro format_d_append_eq) (simp_all add: is_digit_def)
    then show ?thesis by simp
  next
    case (Cons k ks)
    have "format_d n @ ('', '' @ closed_join (a # as) @ r)
        = format_d m @ ('', '' @ closed_join (k # ks) @ r')"
      using Cons.prems Cons by (simp add: closed_join_simps)
    then have "n = m \<and> '', '' @ closed_join (a # as) @ r = '', '' @ closed_join (k # ks) @ r'"
      by (intro format_d_append_eq) (simp_all add: is_digit_def)
    then have "n = m" "closed_join (a # as) @ r = closed_join (k # ks) @ r'" by simp_all
    then show ?thesis using Cons.IH [of a k ks] Cons by simp
  qed
qed


lemma repr_tuple_simps:
  "repr_tuple [] = ''()''"
  "repr_tuple [n] = ''('' @ format_d n @ '',)''"
  "repr_tuple (n # m # ms) = ''('' @ closed_join (n # m # ms)"
  by (simp_all add: repr_tuple_def closed_join_def)

lemma repr_tuple_paren: "\<exists>body. repr_tuple t = CHR ''('' # body"
  by (cases t rule: remdups_adj.cases) (simp_all add: repr_tuple_simps)

lemma format_d_not_paren: "format_d n @ r \<noteq> CHR '')'' # r'"
proof
  assume "format_d n @ r = CHR '')'' # r'"
  moreover obtain c cs where "format_d n = c # cs" using format_d_nonempty [of n] by (cases "format_d n") auto
  moreover have "\<forall>c \<in> set (format_d n). is_digit c" by (rule format_d_digits)
  ultimately show False by (auto simp: is_digit_def)
qed

lemma closed_join_not_paren: "closed_join (n # ns) @ r \<noteq> CHR '')'' # r'"
  using format_d_not_paren by (cases ns) (simp_all add: closed_join_simps)

lemma repr_tuple_append_eq:
  assumes "repr_tuple a @ r = repr_tuple b @ r'"
  shows "a = b \<and> r = r'"
proof (cases a rule: remdups_adj.cases)
  case 1
  show ?thesis
  proof (cases b rule: remdups_adj.cases)
    case 1
    then show ?thesis using assms \<open>a = []\<close> by (simp add: repr_tuple_simps)
  next
    case (2 m)
    then show ?thesis using assms \<open>a = []\<close> format_d_not_paren [of m "'',)'' @ r'" r]
      by (simp add: repr_tuple_simps)
  next
    case (3 m k ks)
    then show ?thesis using assms \<open>a = []\<close> closed_join_not_paren [of m "k # ks" r' r]
      by (simp add: repr_tuple_simps)
  qed
next
  case (2 n)
  note a = this
  show ?thesis
  proof (cases b rule: remdups_adj.cases)
    case 1
    then show ?thesis using assms a format_d_not_paren [of n "'',)'' @ r" r']
      by (simp add: repr_tuple_simps)
  next
    case (2 m)
    have "format_d n @ ('',)'' @ r) = format_d m @ ('',)'' @ r')"
      using assms a 2 by (simp add: repr_tuple_simps)
    then have "n = m \<and> '',)'' @ r = '',)'' @ r'"
      by (intro format_d_append_eq) (simp_all add: is_digit_def)
    then show ?thesis using a 2 by simp
  next
    case (3 m k ks)
    have "format_d n @ ('',)'' @ r) = format_d m @ ('', '' @ closed_join (k # ks) @ r')"
      using assms a 3 by (simp add: repr_tuple_simps closed_join_simps)
    then have "n = m \<and> '',)'' @ r = '', '' @ closed_join (k # ks) @ r'"
      by (intro format_d_append_eq) (simp_all add: is_digit_def)
    then show ?thesis by simp
  qed
next
  case (3 n j js)
  note a = this
  show ?thesis
  proof (cases b rule: remdups_adj.cases)
    case 1
    then show ?thesis using assms a closed_join_not_paren [of n "j # js" r r']
      by (simp add: repr_tuple_simps)
  next
    case (2 m)
    have "format_d n @ ('', '' @ closed_join (j # js) @ r) = format_d m @ ('',)'' @ r')"
      using assms a 2 by (simp add: repr_tuple_simps closed_join_simps)
    then have "n = m \<and> '', '' @ closed_join (j # js) @ r = '',)'' @ r'"
      by (intro format_d_append_eq) (simp_all add: is_digit_def)
    then show ?thesis by simp
  next
    case (3 m k ks)
    have "closed_join (n # j # js) @ r = closed_join (m # k # ks) @ r'"
      using assms a 3 by (simp add: repr_tuple_simps)
    then show ?thesis using closed_join_inj a 3 by blast
  qed
qed

lemma lower_name_eq: "lower_name c @ CHR '' '' # r = lower_name c' @ CHR '' '' # r' \<Longrightarrow> c = c' \<and> r = r'"
  by (cases c; cases c') (simp_all add: lower_name_def)

lemma shapes_message_alt:
  "shapes_message c a b =
     ''Segmented '' @ (repr_tuple a @ ('' and '' @ (lower_name c @ CHR '' '' # (repr_tuple b @ '' shapes differ''))))"
  by (simp add: shapes_message_def)

lemma ndim_message_inj:
  "ndim_message c n = ndim_message c' n' \<longleftrightarrow> c = c' \<and> n = n'"
proof -
  have "format_d n = format_d n' \<longleftrightarrow> n = n'" using format_d_inj by blast
  then show ?thesis by (cases c; cases c') (simp_all add: ndim_message_def)
qed

lemma shapes_message_inj:
  "shapes_message c a b = shapes_message c' a' b' \<longleftrightarrow> c = c' \<and> a = a' \<and> b = b'"
proof
  assume e: "shapes_message c a b = shapes_message c' a' b'"
  have "repr_tuple a @ ('' and '' @ (lower_name c @ CHR '' '' # (repr_tuple b @ '' shapes differ'')))
      = repr_tuple a' @ ('' and '' @ (lower_name c' @ CHR '' '' # (repr_tuple b' @ '' shapes differ'')))"
    using e unfolding shapes_message_alt by (simp only: same_append_eq)
  from repr_tuple_append_eq [OF this]
  have a: "a = a'"
    and r: "'' and '' @ (lower_name c @ CHR '' '' # (repr_tuple b @ '' shapes differ''))
          = '' and '' @ (lower_name c' @ CHR '' '' # (repr_tuple b' @ '' shapes differ''))"
    by blast+
  have "lower_name c @ CHR '' '' # (repr_tuple b @ '' shapes differ'')
      = lower_name c' @ CHR '' '' # (repr_tuple b' @ '' shapes differ'')"
    using r by (simp only: same_append_eq)
  from lower_name_eq [OF this]
  have c: "c = c'" and "repr_tuple b @ '' shapes differ'' = repr_tuple b' @ '' shapes differ''"
    by blast+
  then have "b = b'" using repr_tuple_append_eq by blast
  then show "c = c' \<and> a = a' \<and> b = b'" using a c by simp
next
  assume "c = c' \<and> a = a' \<and> b = b'"
  then show "shapes_message c a b = shapes_message c' a' b'" by simp
qed

lemma ndim_message_not_shapes: "ndim_message c n \<noteq> shapes_message c' a b"
proof -
  obtain body where "repr_tuple a = CHR ''('' # body" using repr_tuple_paren by blast
  then show ?thesis unfolding shapes_message_alt by (cases c) (simp_all add: ndim_message_def)
qed

lemma assert_present_simps:
  "assert_present None p msg = Inr ()"
  "assert_present (Some a) p msg = (if p a then Inr () else Inl (AssertionError (msg a)))"
  "assert_present2 None y q msg2 = Inr ()"
  "assert_present2 x None q msg2 = Inr ()"
  "assert_present2 (Some a) (Some b) q msg2 = (if q a b then Inr () else Inl (AssertionError (msg2 a b)))"
  by (simp_all add: assert_present_def assert_present2_def split: option.splits)

lemma and_then_if:
  "and_then (if c then Inr () else Inl e) f = (if c then f () else Inl e)"
  by (simp add: and_then_def)

lemma check_consistency_unfold:
  "check_consistency s segmented unedited_segmented small_removed_segmented =
     (if has_negative s segmented \<or> has_negative s unedited_segmented
         \<or> has_negative s small_removed_segmented
      then Inl (AssertionError None)
      else if not_2d segmented
      then Inl (AssertionError (Some (ndim_message Segmented (ndim (the segmented)))))
      else if not_2d unedited_segmented
      then Inl (AssertionError (Some (ndim_message Unedited (ndim (the unedited_segmented)))))
      else if not_2d small_removed_segmented
      then Inl (AssertionError (Some (ndim_message SmallRemoved (ndim (the small_removed_segmented)))))
      else if shapes_differ segmented unedited_segmented
      then Inl (AssertionError (Some (shapes_message Unedited
                  (shape (the segmented)) (shape (the unedited_segmented)))))
      else if shapes_differ segmented small_removed_segmented
      then Inl (AssertionError (Some (shapes_message SmallRemoved
                  (shape (the segmented)) (shape (the small_removed_segmented)))))
      else Inr ())"
  by (cases segmented; cases unedited_segmented; cases small_removed_segmented)
    (simp_all add: check_consistency_def assert_present_simps and_then_if has_negative_def
      not_2d_def shapes_differ_def ndim_message_def shapes_message_def lower_name_def)

lemma not_2d_Some: "not_2d x \<Longrightarrow> \<exists>a. x = Some a \<and> ndim a \<noteq> 2"
  by (cases x) (simp_all add: not_2d_def)

lemma shapes_differ_Some:
  "shapes_differ x y \<Longrightarrow> \<exists>a b. x = Some a \<and> y = Some b \<and> shape a \<noteq> shape b"
  by (cases x; cases y) (simp_all add: shapes_differ_def)

lemma check_consistency_Inl_iff:
  assumes "\<not> unchecked_pair_only s seg un sm"
  shows "(\<exists>e. check_consistency s seg un sm = Inl e) \<longleftrightarrow> violation s seg un sm"
proof -
  have r: "(\<exists>e. check_consistency s seg un sm = Inl e) \<longleftrightarrow>
      has_negative s seg \<or> has_negative s un \<or> has_negative s sm
      \<or> not_2d seg \<or> not_2d un \<or> not_2d sm
      \<or> shapes_differ seg un \<or> shapes_differ seg sm"
    by (simp add: check_consistency_unfold)
  have "shapes_differ seg un \<or> shapes_differ seg sm
      \<or> has_negative s un \<or> has_negative s sm \<or> not_2d un \<or> not_2d sm"
    if d: "shapes_differ un sm"
  proof (cases seg)
    case None
    then show ?thesis using assms d by (auto simp: unchecked_pair_only_def)
  next
    case (Some a)
    obtain b c where "un = Some b" "sm = Some c" "shape b \<noteq> shape c"
      using shapes_differ_Some [OF d] by blast
    then show ?thesis using Some by (auto simp: shapes_differ_def)
  qed
  then show ?thesis unfolding r violation_def by blast
qed

lemma check_consistency_Inl_cases:
  assumes "check_consistency s seg un sm = Inl e"
  shows "(e = AssertionError None
            \<and> (has_negative s seg \<or> has_negative s un \<or> has_negative s sm))
       \<or> (\<exists>c a. present c seg un sm = Some a \<and> ndim a \<noteq> 2
              \<and> e = AssertionError (Some (ndim_message c (ndim a))))
       \<or> (\<exists>c a b. c \<noteq> Segmented \<and> seg = Some a \<and> present c seg un sm = Some b
              \<and> shape a \<noteq> shape b
              \<and> e = AssertionError (Some (shapes_message c (shape a) (shape b))))"
proof -
  let ?neg = "has_negative s seg \<or> has_negative s un \<or> has_negative s sm"
  let ?B = "\<exists>c a. present c seg un sm = Some a \<and> ndim a \<noteq> 2
              \<and> e = AssertionError (Some (ndim_message c (ndim a)))"
  let ?C = "\<exists>c a b. c \<noteq> Segmented \<and> seg = Some a \<and> present c seg un sm = Some b
              \<and> shape a \<noteq> shape b
              \<and> e = AssertionError (Some (shapes_message c (shape a) (shape b)))"
  consider (neg) ?neg
    | (d1) "\<not> ?neg" "not_2d seg"
    | (d2) "\<not> ?neg" "\<not> not_2d seg" "not_2d un"
    | (d3) "\<not> ?neg" "\<not> not_2d seg" "\<not> not_2d un" "not_2d sm"
    | (s1) "\<not> ?neg" "\<not> not_2d seg" "\<not> not_2d un" "\<not> not_2d sm" "shapes_differ seg un"
    | (s2) "\<not> ?neg" "\<not> not_2d seg" "\<not> not_2d un" "\<not> not_2d sm" "\<not> shapes_differ seg un"
        "shapes_differ seg sm"
    | (ok) "\<not> ?neg" "\<not> not_2d seg" "\<not> not_2d un" "\<not> not_2d sm" "\<not> shapes_differ seg un"
        "\<not> shapes_differ seg sm"
    by blast
  then show ?thesis
  proof cases
    case neg
    then have "e = AssertionError None" using assms by (simp add: check_consistency_unfold)
    then show ?thesis using neg by blast
  next
    case d1
    then obtain a where a: "seg = Some a" "ndim a \<noteq> 2" using not_2d_Some by blast
    have "e = AssertionError (Some (ndim_message Segmented (ndim a)))"
      using assms d1 a by (simp add: check_consistency_unfold)
    moreover have "present Segmented seg un sm = Some a" using a by (simp add: present_def)
    ultimately have ?B using a by blast
    then show ?thesis by blast
  next
    case d2
    then obtain a where a: "un = Some a" "ndim a \<noteq> 2" using not_2d_Some by blast
    have "e = AssertionError (Some (ndim_message Unedited (ndim a)))"
      using assms d2 a by (simp add: check_consistency_unfold)
    moreover have "present Unedited seg un sm = Some a" using a by (simp add: present_def)
    ultimately have ?B using a by blast
    then show ?thesis by blast
  next
    case d3
    then obtain a where a: "sm = Some a" "ndim a \<noteq> 2" using not_2d_Some by blast
    have "e = AssertionError (Some (ndim_message SmallRemoved (ndim a)))"
      using assms d3 a by (simp add: check_consistency_unfold)
    moreover have "present SmallRemoved seg un sm = Some a" using a by (simp add: present_def)
    ultimately have ?B using a by blast
    then show ?thesis by blast
  next
    case s1
    then obtain a b where a: "seg = Some a" "un = Some b" "shape a \<noteq> shape b"
      using shapes_differ_Some by blast
    have "e = AssertionError (Some (shapes_message Unedited (shape a) (shape b)))"
      using assms s1 a by (simp add: check_consistency_unfold)
    moreover have "present Unedited seg un sm = Some b" using a by (simp add: present_def)
    ultimately have ?C using a by blast
    then show ?thesis by blast
  next
    case s2
    then obtain a b where a: "seg = Some a" "sm = Some b" "shape a \<noteq> shape b"
      using shapes_differ_Some by blast
    have "e = AssertionError (Some (shapes_message SmallRemoved (shape a) (shape b)))"
      using assms s2 a by (simp add: check_consistency_unfold)
    moreover have "present SmallRemoved seg un sm = Some b" using a by (simp add: present_def)
    ultimately have ?C using a by blast
    then show ?thesis by blast
  next
    case ok
    then show ?thesis using assms by (simp add: check_consistency_unfold)
  qed
qed

lemma elements_store_two:
  "elements store_two labels_2x2 = [1, 2, 3, 4]"
  "elements store_two secondary_3x3 = [5, 6, 7, 8, 9, 10, 11, 12, 13]"
  by (simp_all add: elements_def labels_2x2_def secondary_3x3_def store_two_def store_of_def
      getitem_def matrix_cells_def upt_rec)

lemma format_d_digit: "n < 10 \<Longrightarrow> format_d n = [''0123456789'' ! n]"
  by (simp add: format_d.simps [of n] digit_char_def)

lemma store_two_facts:
  "numpy_all_ge0 store_two labels_2x2" "numpy_all_ge0 store_two secondary_3x3"
  "ndim labels_2x2 = 2" "ndim secondary_3x3 = 2"
  "shape labels_2x2 = [2, 2]" "shape secondary_3x3 = [3, 3]"
  by (simp_all add: numpy_all_ge0_def elements_store_two ndim_def)
    (simp_all add: labels_2x2_def secondary_3x3_def)

lemma shapes_message_example:
  "shapes_message Unedited [2, 2] [3, 3]
     = ''Segmented (2, 2) and unedited segmented (3, 3) shapes differ''"
  by (simp add: shapes_message_def lower_name_def repr_tuple_def format_d_digit)

lemma check_consistency_example:
  "check_consistency store_two (Some labels_2x2) (Some secondary_3x3) None =
     Inl (AssertionError (Some (shapes_message Unedited [2, 2] [3, 3])))"
  by (simp add: check_consistency_unfold has_negative_def not_2d_def shapes_differ_def
      store_two_facts)

text \<open>
  Claim C2, at \<^verbatim>\<open>segmented = None\<close> with an unedited matrix of shape (2, 2) and a
  small-removed matrix of shape (3, 3), both without negative values: the call
  returns. Both shape assertions are guarded by \<^verbatim>\<open>segmented is None\<close>, and no assertion
  compares the other two matrices with each other.
\<close>

theorem check_consistency_unchecked_pair:
  "check_consistency store_two None (Some labels_2x2) (Some secondary_3x3) = Inr ()
   \<and> shape labels_2x2 = [2, 2] \<and> shape secondary_3x3 = [3, 3]"
  by (simp add: check_consistency_unfold has_negative_def not_2d_def shapes_differ_def
      store_two_facts)

text \<open>
  Claim C6, the failure message: a negative value in \<^verbatim>\<open>segmented\<close>, in
  \<^verbatim>\<open>unedited_segmented\<close> or in \<^verbatim>\<open>small_removed_segmented\<close> raises the same
  \<^verbatim>\<open>AssertionError\<close> without any message, so the message does not tell which matrix
  failed.
\<close>

theorem check_consistency_negative_no_message:
  "check_consistency (store_max (- 1)) (Some labels_2x2) None None = Inl (AssertionError None)
   \<and> check_consistency (store_max (- 1)) None (Some labels_2x2) None = Inl (AssertionError None)
   \<and> check_consistency (store_max (- 1)) None None (Some labels_2x2) = Inl (AssertionError None)"
  by (simp add: check_consistency_unfold has_negative_def numpy_all_ge0_def elements_store_max)

text \<open>
  Claim C6 as amended. \<^verbatim>\<open>check_consistency\<close> returns when all three arguments are
  \<^verbatim>\<open>None\<close>. Apart from the arguments whose only violation is a shape that differs
  between \<^verbatim>\<open>unedited_segmented\<close> and \<^verbatim>\<open>small_removed_segmented\<close> while \<^verbatim>\<open>segmented\<close> is
  absent, about which nothing is said here (claim C2), it raises exactly when a
  violation holds: a negative value in a present matrix, a present matrix without
  exactly two axes, or two present matrices of different shapes. A failure for a
  negative value has no message. A failure for the number of axes has a message that
  names the matrix and its number of axes, and a failure for the shapes has a message
  that names the pair and both shapes; these messages are pairwise different for
  different matrices, numbers of axes, pairs or shapes, so they identify what failed.
\<close>

theorem check_consistency_raises:
  "check_consistency s None None None = Inr ()
   \<and> (\<not> unchecked_pair_only s seg un sm \<longrightarrow>
        ((\<exists>e. check_consistency s seg un sm = Inl e) \<longleftrightarrow> violation s seg un sm)
        \<and> (\<forall>e. check_consistency s seg un sm = Inl e \<longrightarrow>
              (e = AssertionError None
                 \<and> (has_negative s seg \<or> has_negative s un \<or> has_negative s sm))
              \<or> (\<exists>c a. present c seg un sm = Some a \<and> ndim a \<noteq> 2
                   \<and> e = AssertionError (Some (ndim_message c (ndim a))))
              \<or> (\<exists>c a b. c \<noteq> Segmented \<and> seg = Some a \<and> present c seg un sm = Some b
                   \<and> shape a \<noteq> shape b
                   \<and> e = AssertionError (Some (shapes_message c (shape a) (shape b))))))
   \<and> (ndim_message c n = ndim_message c' n' \<longleftrightarrow> c = c' \<and> n = n')
   \<and> (shapes_message c sa sb = shapes_message c' sa' sb' \<longleftrightarrow> c = c' \<and> sa = sa' \<and> sb = sb')
   \<and> ndim_message c n \<noteq> shapes_message c' sa sb"
proof -
  have none: "check_consistency s None None None = Inr ()"
    by (simp add: check_consistency_def assert_present_simps)
  have behaviour: "\<not> unchecked_pair_only s seg un sm \<longrightarrow>
        ((\<exists>e. check_consistency s seg un sm = Inl e) \<longleftrightarrow> violation s seg un sm)
        \<and> (\<forall>e. check_consistency s seg un sm = Inl e \<longrightarrow>
              (e = AssertionError None
                 \<and> (has_negative s seg \<or> has_negative s un \<or> has_negative s sm))
              \<or> (\<exists>c a. present c seg un sm = Some a \<and> ndim a \<noteq> 2
                   \<and> e = AssertionError (Some (ndim_message c (ndim a))))
              \<or> (\<exists>c a b. c \<noteq> Segmented \<and> seg = Some a \<and> present c seg un sm = Some b
                   \<and> shape a \<noteq> shape b
                   \<and> e = AssertionError (Some (shapes_message c (shape a) (shape b)))))"
  proof (intro impI conjI allI)
    assume "\<not> unchecked_pair_only s seg un sm"
    then show "(\<exists>e. check_consistency s seg un sm = Inl e) \<longleftrightarrow> violation s seg un sm"
      by (rule check_consistency_Inl_iff)
  next
    fix e
    assume "check_consistency s seg un sm = Inl e"
    then show "(e = AssertionError None
                 \<and> (has_negative s seg \<or> has_negative s un \<or> has_negative s sm))
              \<or> (\<exists>c a. present c seg un sm = Some a \<and> ndim a \<noteq> 2
                   \<and> e = AssertionError (Some (ndim_message c (ndim a))))
              \<or> (\<exists>c a b. c \<noteq> Segmented \<and> seg = Some a \<and> present c seg un sm = Some b
                   \<and> shape a \<noteq> shape b
                   \<and> e = AssertionError (Some (shapes_message c (shape a) (shape b))))"
      by (rule check_consistency_Inl_cases)
  qed
  show ?thesis
    by (intro conjI none behaviour ndim_message_inj shapes_message_inj ndim_message_not_shapes)
qed

theorem check_consistency_raises_witness:
  "check_consistency store_two None None None = Inr ()
   \<and> \<not> unchecked_pair_only store_two (Some labels_2x2) (Some secondary_3x3) None
   \<and> violation store_two (Some labels_2x2) (Some secondary_3x3) None
   \<and> check_consistency store_two (Some labels_2x2) (Some secondary_3x3) None =
       Inl (AssertionError (Some (shapes_message Unedited [2, 2] [3, 3])))
   \<and> shapes_message Unedited [2, 2] [3, 3]
       = ''Segmented (2, 2) and unedited segmented (3, 3) shapes differ''
   \<and> shapes_message Unedited [2, 2] [3, 3] \<noteq> shapes_message SmallRemoved [2, 2] [3, 3]
   \<and> ndim_message Segmented 3 \<noteq> ndim_message Unedited 3"
proof -
  note t = check_consistency_raises [where s = store_two and seg = "Some labels_2x2"
      and un = "Some secondary_3x3" and sm = None and c = Segmented and n = 3
      and c' = Unedited and n' = 3]
  note u = check_consistency_raises [where s = store_two and seg = None
      and un = None and sm = None and c = Unedited and sa = "[2, 2]" and sb = "[3, 3]"
      and c' = SmallRemoved and sa' = "[2, 2]" and sb' = "[3, 3]"]
  have e: "check_consistency store_two (Some labels_2x2) (Some secondary_3x3) None =
       Inl (AssertionError (Some (shapes_message Unedited [2, 2] [3, 3])))"
    by (rule check_consistency_example)
  have p: "\<not> unchecked_pair_only store_two (Some labels_2x2) (Some secondary_3x3) None"
    by (simp add: unchecked_pair_only_def)
  have v: "violation store_two (Some labels_2x2) (Some secondary_3x3) None"
    using t p e by blast
  have n: "check_consistency store_two None None None = Inr ()"
    using t by blast
  have i1: "shapes_message Unedited [2, 2] [3, 3] \<noteq> shapes_message SmallRemoved [2, 2] [3, 3]"
    using u by blast
  have i2: "ndim_message Segmented 3 \<noteq> ndim_message Unedited 3"
    using t by blast
  show ?thesis using n p v e shapes_message_example i1 i2 by blast
qed

section \<open>overlay_labels: the label matrix and the generator\<close>

lemma keeps_storeD:
  assumes "keeps_store lib" and "label2rgb lib s a opacity colors img = (r, s1)"
  shows "fresh s \<le> fresh s1" and "b < fresh s \<Longrightarrow> cells s1 b = cells s b"
proof -
  have "snd (label2rgb lib s a opacity colors img) = s1" using assms(2) by simp
  then show "fresh s \<le> fresh s1" and "b < fresh s \<Longrightarrow> cells s1 b = cells s b"
    using assms(1) unfolding keeps_store_def by metis+
qed

lemma overlay_planes_keeps:
  assumes "keeps_store lib"
  shows "fresh s \<le> fresh (snd (overlay_planes lib s labels opacity colors ps index overlay))
       \<and> (\<forall>b. b < fresh s \<longrightarrow>
             cells (snd (overlay_planes lib s labels opacity colors ps index overlay)) b = cells s b)"
proof (induction ps arbitrary: s index overlay)
  case Nil
  show ?case by simp
next
  case (Cons plane rest)
  show ?case
  proof (cases "index_first labels index")
    case (Inl e)
    then show ?thesis by simp
  next
    case (Inr v)
    note v = this
    show ?thesis
    proof (cases "numpy_unique s v")
      case Nil
      then show ?thesis using v by simp
    next
      case (Cons u0 us)
      note u = this
      let ?ul = "if u0 = 0 then us else u0 # us"
      show ?thesis
      proof (cases "take_rows colors (map (sub1_in_dtype (dtype labels)) ?ul)")
        case (Inl e)
        then show ?thesis using v u by (simp add: Let_def)
      next
        case (Inr rows)
        note rows = this
        obtain r s1 where l: "label2rgb lib s v opacity rows plane = (r, s1)"
          by (cases "label2rgb lib s v opacity rows plane")
        note k = keeps_storeD [OF assms l]
        show ?thesis
        proof (cases r)
          case (Inl e)
          then show ?thesis using v u rows l k by (simp add: Let_def)
        next
          case (Inr rgb)
          note rgb = this
          show ?thesis
          proof (cases "set_plane lib overlay index rgb")
            case (Inl e)
            then show ?thesis using v u rows l k rgb by (simp add: Let_def)
          next
            case (Inr overlay')
            have eq: "overlay_planes lib s labels opacity colors (plane # rest) index overlay
                = overlay_planes lib s1 labels opacity colors rest (Suc index) overlay'"
              using v u rows l rgb Inr by (simp add: Let_def)
            have ih: "fresh s1 \<le> fresh (snd (overlay_planes lib s1 labels opacity colors rest (Suc index) overlay'))"
              "\<And>b. b < fresh s1 \<Longrightarrow>
                 cells (snd (overlay_planes lib s1 labels opacity colors rest (Suc index) overlay')) b
                   = cells s1 b"
              using Cons.IH [of s1 "Suc index" overlay'] by blast+
            show ?thesis unfolding eq using ih k by (metis le_trans less_le_trans)
          qed
        qed
      qed
    qed
  qed
qed

lemma keeps_store_toy: "keeps_store toy_library"
  by (simp add: keeps_store_def toy_library_def)

lemma allocated_store_two: "allocated store_two labels_2x2"
  by (simp add: allocated_def store_two_def store_of_def labels_2x2_def)

text \<open>
  Claim C8. \<^verbatim>\<open>overlay_labels\<close> does not change the label matrix it is given: for every
  pixel array, label matrix, opacity, \<^verbatim>\<open>max_label\<close> and seed, and every generator state,
  each element of the label matrix reads the same after the call as before it, whether
  the call returns or raises. The function itself only reads the labels (their
  maximum, their planes, the distinct values of a plane); it hands them to
  \<^verbatim>\<open>skimage.color.label2rgb\<close>, whose contract is the hypothesis: it leaves the arrays
  that exist when it is called as they are.
\<close>

theorem overlay_labels_keeps_labels:
  assumes "keeps_store lib" and "allocated s labels"
  shows "getitem (fst (snd (overlay_labels lib g s pixel_data labels opacity max_label seed)))
           labels idx = getitem s labels idx"
proof -
  have b: "base labels < fresh s" using assms(2) by (simp add: allocated_def)
  obtain rc g1 where c: "py_colors lib g s labels max_label seed = (rc, g1)"
    by (cases "py_colors lib g s labels max_label seed")
  have "cells (fst (snd (overlay_labels lib g s pixel_data labels opacity max_label seed)))
          (base labels) = cells s (base labels)"
  proof (cases rc)
    case (Inl e)
    then show ?thesis using c by (simp add: overlay_labels_def)
  next
    case (Inr colors)
    note colors = this
    show ?thesis
    proof (cases "ndim labels = 3")
      case True
      show ?thesis
      proof (cases "planes lib pixel_data")
        case (Inl e)
        then show ?thesis using c colors True by (simp add: overlay_labels_def)
      next
        case (Inr ps)
        have "fst (snd (overlay_labels lib g s pixel_data labels opacity max_label seed))
            = snd (overlay_planes lib s labels opacity colors ps 0
                     (numpy_zeros_float lib (shape labels @ [3])))"
          using c colors True Inr by (simp add: overlay_labels_def split_beta Let_def)
        then show ?thesis using overlay_planes_keeps [OF assms(1)] b by simp
      qed
    next
      case False
      obtain r s1 where l: "label2rgb lib s labels opacity colors pixel_data = (r, s1)"
        by (cases "label2rgb lib s labels opacity colors pixel_data")
      have "fst (snd (overlay_labels lib g s pixel_data labels opacity max_label seed)) = s1"
        using c colors False l by (simp add: overlay_labels_def)
      then show ?thesis using keeps_storeD(2) [OF assms(1) l b] by simp
    qed
  qed
  then show ?thesis by (simp add: getitem_def)
qed

theorem overlay_labels_keeps_labels_witness:
  "keeps_store toy_library \<and> allocated store_two labels_2x2
   \<and> getitem store_two labels_2x2 [1, 0] = 3
   \<and> getitem (fst (snd (overlay_labels toy_library 0 store_two [] labels_2x2 7 None None)))
        labels_2x2 [1, 0] = 3"
proof -
  have g: "getitem store_two labels_2x2 [1, 0] = 3"
    by (simp add: getitem_def store_two_def store_of_def labels_2x2_def matrix_cells_def)
  show ?thesis
    using overlay_labels_keeps_labels [OF keeps_store_toy allocated_store_two,
        of 0 "[]" 7 None None "[1, 0]"]
      keeps_store_toy allocated_store_two g
    by simp
qed

lemma py_colors_seeded:
  "fst (py_colors lib g s labels max_label (Some sd))
     = fst (py_colors lib g' s labels max_label (Some sd))"
  by (simp add: py_colors_def split_beta split: sum.splits option.splits)

lemma py_colors_unseeded:
  assumes "default_mappable lib = Inr mappable"
    and "(case max_label of None \<Rightarrow> numpy_max s labels | Some m \<Rightarrow> Inr m) = Inr n"
    and "to_rgba lib mappable n = Inr colors"
  shows "py_colors lib g s labels max_label None = (Inr (fst (random_shuffle lib g colors)),
           snd (random_shuffle lib g colors))"
  using assms by (simp add: py_colors_def split_beta)

lemma overlay_labels_of_colors:
  assumes "fst (py_colors lib g s labels max_label seed)
             = fst (py_colors lib g' s labels max_label seed')"
  shows "fst (overlay_labels lib g s pixel_data labels opacity max_label seed)
           = fst (overlay_labels lib g' s pixel_data labels opacity max_label seed')
       \<and> fst (snd (overlay_labels lib g s pixel_data labels opacity max_label seed))
           = fst (snd (overlay_labels lib g' s pixel_data labels opacity max_label seed'))"
proof -
  obtain rc g1 where a: "py_colors lib g s labels max_label seed = (rc, g1)"
    by (cases "py_colors lib g s labels max_label seed")
  obtain g2 where b: "py_colors lib g' s labels max_label seed' = (rc, g2)"
    using assms a by (cases "py_colors lib g' s labels max_label seed'") simp
  show ?thesis
    by (cases rc) (simp_all add: overlay_labels_def a b split_beta Let_def split: sum.splits)
qed

text \<open>
  Claim C10. With a seed, the result of \<^verbatim>\<open>overlay_labels\<close> (the returned array or the
  exception) and the store it leaves are the same from any two states of the global
  generator: the seed replaces the state before the colours are shuffled, and nothing
  else reads the generator. Without a seed the colours are shuffled from the ambient
  state: when the colour map can be built, the colour table is the shuffle of the
  mapped colours at that state, and for labels that are not three-dimensional the
  result is what \<^verbatim>\<open>label2rgb\<close> makes of that table, so two runs from states that
  shuffle differently may differ. The library, with the colour map of the preferences,
  is the same in both runs.
\<close>

theorem overlay_labels_seed:
  "fst (overlay_labels lib g s pixel_data labels opacity max_label (Some sd))
     = fst (overlay_labels lib g' s pixel_data labels opacity max_label (Some sd))
   \<and> fst (snd (overlay_labels lib g s pixel_data labels opacity max_label (Some sd)))
     = fst (snd (overlay_labels lib g' s pixel_data labels opacity max_label (Some sd)))
   \<and> (default_mappable lib = Inr mappable
        \<and> (case max_label of None \<Rightarrow> numpy_max s labels | Some m \<Rightarrow> Inr m) = Inr n
        \<and> to_rgba lib mappable n = Inr colors \<longrightarrow>
      fst (py_colors lib g s labels max_label None) = Inr (fst (random_shuffle lib g colors))
      \<and> (ndim labels \<noteq> 3 \<longrightarrow>
           fst (overlay_labels lib g s pixel_data labels opacity max_label None)
             = fst (label2rgb lib s labels opacity (fst (random_shuffle lib g colors)) pixel_data)))"
proof (intro conjI impI)
  show "fst (overlay_labels lib g s pixel_data labels opacity max_label (Some sd))
     = fst (overlay_labels lib g' s pixel_data labels opacity max_label (Some sd))"
    using overlay_labels_of_colors [OF py_colors_seeded [of lib g s labels max_label sd g']]
      by blast
  show "fst (snd (overlay_labels lib g s pixel_data labels opacity max_label (Some sd)))
     = fst (snd (overlay_labels lib g' s pixel_data labels opacity max_label (Some sd)))"
    using overlay_labels_of_colors [OF py_colors_seeded [of lib g s labels max_label sd g']]
      by blast
next
  assume h: "default_mappable lib = Inr mappable
        \<and> (case max_label of None \<Rightarrow> numpy_max s labels | Some m \<Rightarrow> Inr m) = Inr n
        \<and> to_rgba lib mappable n = Inr colors"
  then have c: "py_colors lib g s labels max_label None = (Inr (fst (random_shuffle lib g colors)),
           snd (random_shuffle lib g colors))"
    by (elim conjE) (rule py_colors_unseeded)
  then show "fst (py_colors lib g s labels max_label None) = Inr (fst (random_shuffle lib g colors))"
    by simp
  assume "ndim labels \<noteq> 3"
  then show "fst (overlay_labels lib g s pixel_data labels opacity max_label None)
             = fst (label2rgb lib s labels opacity (fst (random_shuffle lib g colors)) pixel_data)"
    using c by (simp add: overlay_labels_def split_beta)
qed

lemma toy_facts:
  "default_mappable toy_library = Inr ()"
  "numpy_max store_two labels_2x2 = Inr 4"
  "to_rgba toy_library () 4 = Inr [0, 10, 20, 30]"
  "ndim labels_2x2 \<noteq> 3"
  "fst (label2rgb toy_library store_two labels_2x2 7 colors []) = Inr (7 # [1, 2, 3, 4] @ colors)"
  "fst (random_shuffle toy_library 0 [0, 10, 20, 30]) = [0, 10, 20, 30]"
  "fst (random_shuffle toy_library (Suc 0) [0, 10, 20, 30]) = [10, 20, 30, 0]"
  by (simp_all add: toy_library_def numpy_max_def elements_store_two upto_rec1)
    (simp_all add: ndim_def labels_2x2_def rotate_def rotate1_def)

theorem overlay_labels_seed_witness:
  "default_mappable toy_library = Inr ()
   \<and> (case None of None \<Rightarrow> numpy_max store_two labels_2x2 | Some m \<Rightarrow> Inr m) = Inr 4
   \<and> to_rgba toy_library () 4 = Inr [0, 10, 20, 30]
   \<and> ndim labels_2x2 \<noteq> 3
   \<and> fst (overlay_labels toy_library 0 store_two [] labels_2x2 7 None (Some 2))
       = fst (overlay_labels toy_library 1 store_two [] labels_2x2 7 None (Some 2))
   \<and> fst (overlay_labels toy_library 0 store_two [] labels_2x2 7 None None)
       = Inr [7, 1, 2, 3, 4, 0, 10, 20, 30]
   \<and> fst (overlay_labels toy_library 1 store_two [] labels_2x2 7 None None)
       = Inr [7, 1, 2, 3, 4, 10, 20, 30, 0]"
proof -
  note t = overlay_labels_seed [where lib = toy_library and s = store_two and labels = labels_2x2
      and pixel_data = "[]" and opacity = 7 and max_label = None and mappable = "()"
      and n = 4 and colors = "[0, 10, 20, 30]"]
  have h: "default_mappable toy_library = Inr ()
        \<and> (case None of None \<Rightarrow> numpy_max store_two labels_2x2 | Some m \<Rightarrow> Inr m) = Inr 4
        \<and> to_rgba toy_library () 4 = Inr [0, 10, 20, 30]"
    by (simp add: toy_facts)
  have a: "fst (overlay_labels toy_library 0 store_two [] labels_2x2 7 None (Some 2))
       = fst (overlay_labels toy_library 1 store_two [] labels_2x2 7 None (Some 2))"
    using t [of 0 2 1] by blast
  have b: "fst (overlay_labels toy_library 0 store_two [] labels_2x2 7 None None)
       = Inr [7, 1, 2, 3, 4, 0, 10, 20, 30]"
    using t [of 0 2 1] h toy_facts(4) by (simp add: toy_facts)
  have c: "fst (overlay_labels toy_library 1 store_two [] labels_2x2 7 None None)
       = Inr [7, 1, 2, 3, 4, 10, 20, 30, 0]"
    using t [of 1 2 0] h toy_facts(4) by (simp add: toy_facts)
  show ?thesis using h toy_facts(4) a b c by blast
qed

end
